theory Spec2Isabelle
  imports Complex_Main "HOL-Library.AList" "HOL-Library.Multiset"
begin

section \<open>Colour types (core/color\_types.py)\<close>

text \<open>
  Python floats are modelled as reals, Python ints as \<open>int\<close>, Python strings as
  \<open>string\<close> (ASCII). An exception is a value \<open>Inl e\<close> of a sum type.
\<close>

datatype ColorRole =
  PRIMARY | SECONDARY | ACCENT | BACKGROUND | SURFACE | TEXT | TEXT_SECONDARY
  | BORDER | WARNING | ERROR

datatype error = ValueError | KeyError | IndexError | OSError | TimeoutExpired | LibraryError

record SemanticColor =
  r :: int
  g :: int
  b :: int
  role :: ColorRole
  confidence :: real
  alpha :: int

text \<open>The dataclass constructor followed by \<open>__post_init__\<close>.\<close>

definition new_SemanticColor ::
  "int \<Rightarrow> int \<Rightarrow> int \<Rightarrow> ColorRole \<Rightarrow> real \<Rightarrow> int \<Rightarrow> SemanticColor" where
  "new_SemanticColor rv gv bv ro cf al =
     \<lparr> r = max 0 (min 255 rv),
       g = max 0 (min 255 gv),
       b = max 0 (min 255 bv),
       role = ro,
       confidence = max 0.0 (min 1.0 cf),
       alpha = max 0 (min 255 al) \<rparr>"

text \<open>\<open>from_rgb\<close>: the constructor with the default confidence 1.0 and alpha 255.\<close>

definition from_rgb :: "int \<Rightarrow> int \<Rightarrow> int \<Rightarrow> ColorRole \<Rightarrow> SemanticColor" where
  "from_rgb rv gv bv ro = new_SemanticColor rv gv bv ro 1.0 255"

subsection \<open>The format specification \<open>02x\<close>\<close>

definition hex_digit :: "nat \<Rightarrow> char" where
  "hex_digit d = ''0123456789abcdef'' ! d"

fun hex_digits :: "nat \<Rightarrow> string" where
  "hex_digits n =
     (if n < 16 then [hex_digit n] else hex_digits (n div 16) @ [hex_digit (n mod 16)])"

declare hex_digits.simps [simp del]

text \<open>
  \<open>f"{i:02x}"\<close>: lowercase hexadecimal, padded with zeros to width two; the sign of a
  negative number counts towards the width and precedes the padding.
\<close>

definition format_02x :: "int \<Rightarrow> string" where
  "format_02x i =
     (if i < 0
      then (let ds = hex_digits (nat (- i))
            in CHR ''-'' # replicate (1 - length ds) CHR ''0'' @ ds)
      else (let ds = hex_digits (nat i)
            in replicate (2 - length ds) CHR ''0'' @ ds))"

definition hex :: "SemanticColor \<Rightarrow> string" where
  "hex c = CHR ''#'' # format_02x (r c) @ format_02x (g c) @ format_02x (b c)"

definition is_lower_hex :: "char \<Rightarrow> bool" where
  "is_lower_hex c = (c \<in> set ''0123456789abcdef'')"

subsection \<open>\<open>int(s, 16)\<close> and \<open>from_hex\<close>\<close>

definition hex_val :: "char \<Rightarrow> nat option" where
  "hex_val c =
     (let n = (of_char c :: nat)
      in if 48 \<le> n \<and> n \<le> 57 then Some (n - 48)
         else if 97 \<le> n \<and> n \<le> 102 then Some (n - 87)
         else if 65 \<le> n \<and> n \<le> 70 then Some (n - 55)
         else None)"

definition is_hex_digit :: "char \<Rightarrow> bool" where
  "is_hex_digit c = (hex_val c \<noteq> None)"

text \<open>
  The whitespace that \<open>int\<close> strips from an ASCII string: tab, line feed, vertical tab,
  form feed, carriage return and space.
\<close>

definition py_isspace :: "char \<Rightarrow> bool" where
  "py_isspace c =
     (let n = (of_char c :: nat) in (9 \<le> n \<and> n \<le> 13) \<or> n = 32)"

definition strip_ws :: "string \<Rightarrow> string" where
  "strip_ws s = rev (dropWhile py_isspace (rev (dropWhile py_isspace s)))"

fun hex_value :: "string \<Rightarrow> nat \<Rightarrow> nat option" where
  "hex_value [] acc = Some acc"
| "hex_value (c # cs) acc =
     (case hex_val c of None \<Rightarrow> None | Some d \<Rightarrow> hex_value cs (16 * acc + d))"

text \<open>
  Python's \<open>int(s, 16)\<close> on the slices that \<open>from_hex\<close> passes, which have at most two
  characters: surrounding whitespace is stripped, one sign is allowed, and what is left
  must be a non-empty run of hexadecimal digits. (The prefix \<open>0x\<close> and the digit
  separator \<open>_\<close> need three characters to form a number, so no slice uses them.)
\<close>

definition int16 :: "string \<Rightarrow> error + int" where
  "int16 s =
     (let t = strip_ws s;
          neg = (t \<noteq> [] \<and> hd t = CHR ''-'');
          u = (if t \<noteq> [] \<and> (hd t = CHR ''-'' \<or> hd t = CHR ''+'') then tl t else t)
      in if u = [] then Inl ValueError
         else (case hex_value u 0 of
                 None \<Rightarrow> Inl ValueError
               | Some n \<Rightarrow> Inr (if neg then - int n else int n)))"

definition lstrip_hash :: "string \<Rightarrow> string" where
  "lstrip_hash s = dropWhile (\<lambda>c. c = CHR ''#'') s"

text \<open>The last five lines of \<open>from_hex\<close>: parse three two-character slices.\<close>

definition parse_rgb :: "string \<Rightarrow> ColorRole \<Rightarrow> error + SemanticColor" where
  "parse_rgb h ro =
     (case int16 (take 2 h) of
        Inl e \<Rightarrow> Inl e
      | Inr rv \<Rightarrow>
          (case int16 (take 2 (drop 2 h)) of
             Inl e \<Rightarrow> Inl e
           | Inr gv \<Rightarrow>
               (case int16 (take 2 (drop 4 h)) of
                  Inl e \<Rightarrow> Inl e
                | Inr bv \<Rightarrow> Inr (from_rgb rv gv bv ro))))"

definition from_hex :: "string \<Rightarrow> ColorRole \<Rightarrow> error + SemanticColor" where
  "from_hex hex_color ro =
     (let h = lstrip_hash hex_color
      in if length h = 3 then parse_rgb (concat (map (\<lambda>c. [c, c]) h)) ro
         else if length h = 6 then parse_rgb h ro
         else if length h = 8 then
           (case int16 (take 2 (drop 6 h)) of
              Inl e \<Rightarrow> Inl e
            | Inr al \<Rightarrow> parse_rgb (take 6 h) ro)
         else Inl ValueError)"

subsection \<open>Python's \<open>colorsys\<close> module, over the reals\<close>

definition py_mod1 :: "real \<Rightarrow> real" where
  "py_mod1 x = x - of_int \<lfloor>x\<rfloor>"

definition rgb_to_hls :: "real \<Rightarrow> real \<Rightarrow> real \<Rightarrow> real \<times> real \<times> real" where
  "rgb_to_hls rf gf bf =
     (let maxc = max rf (max gf bf);
          minc = min rf (min gf bf);
          sumc = maxc + minc;
          rangec = maxc - minc;
          l = sumc / 2
      in if minc = maxc then (0, l, 0)
         else
           (let s = (if l \<le> 0.5 then rangec / sumc else rangec / (2 - maxc - minc));
                rc = (maxc - rf) / rangec;
                gc = (maxc - gf) / rangec;
                bc = (maxc - bf) / rangec;
                h = (if rf = maxc then bc - gc
                     else if gf = maxc then 2 + rc - bc
                     else 4 + gc - rc)
            in (py_mod1 (h / 6), l, s)))"

definition hls_v :: "real \<Rightarrow> real \<Rightarrow> real \<Rightarrow> real" where
  "hls_v m1 m2 hue0 =
     (let hue = py_mod1 hue0
      in if hue < 1 / 6 then m1 + (m2 - m1) * hue * 6
         else if hue < 0.5 then m2
         else if hue < 2 / 3 then m1 + (m2 - m1) * (2 / 3 - hue) * 6
         else m1)"

definition hls_to_rgb :: "real \<Rightarrow> real \<Rightarrow> real \<Rightarrow> real \<times> real \<times> real" where
  "hls_to_rgb h l s =
     (if s = 0 then (l, l, l)
      else
        (let m2 = (if l \<le> 0.5 then l * (1 + s) else l + s - l * s);
             m1 = 2 * l - m2
         in (hls_v m1 m2 (h + 1 / 3), hls_v m1 m2 h, hls_v m1 m2 (h - 1 / 3))))"

text \<open>Python's \<open>int(x)\<close> on a float: truncation towards zero.\<close>

definition py_int :: "real \<Rightarrow> int" where
  "py_int x = (if 0 \<le> x then \<lfloor>x\<rfloor> else \<lceil>x\<rceil>)"

subsection \<open>Properties and methods of \<open>SemanticColor\<close>\<close>

definition rgb_float :: "SemanticColor \<Rightarrow> real \<times> real \<times> real" where
  "rgb_float c = (real_of_int (r c) / 255, real_of_int (g c) / 255, real_of_int (b c) / 255)"

definition hsl :: "SemanticColor \<Rightarrow> real \<times> real \<times> real" where
  "hsl c =
     (case rgb_to_hls (real_of_int (r c) / 255) (real_of_int (g c) / 255)
             (real_of_int (b c) / 255) of
        (h, l, s) \<Rightarrow> (h * 360, s * 100, l * 100))"

definition gamma_correct :: "real \<Rightarrow> real" where
  "gamma_correct c = (if c \<le> 0.03928 then c / 12.92 else ((c + 0.055) / 1.055) powr 2.4)"

definition luminance :: "SemanticColor \<Rightarrow> real" where
  "luminance c =
     (case rgb_float c of
        (rf, gf, bf) \<Rightarrow>
          0.2126 * gamma_correct rf + 0.7152 * gamma_correct gf + 0.0722 * gamma_correct bf)"

definition contrast_ratio :: "SemanticColor \<Rightarrow> SemanticColor \<Rightarrow> real" where
  "contrast_ratio c other =
     (let l1 = luminance c;
          l2 = luminance other;
          lighter = max l1 l2;
          darker = min l1 l2
      in (lighter + 0.05) / (darker + 0.05))"

definition lighten :: "SemanticColor \<Rightarrow> real \<Rightarrow> SemanticColor" where
  "lighten c amount =
     (case hsl c of
        (h, s, l) \<Rightarrow>
          (let new_l = min 100 (l + amount * 100)
           in case hls_to_rgb (h / 360) (new_l / 100) (s / 100) of
                (rf, gf, bf) \<Rightarrow>
                  new_SemanticColor (py_int (rf * 255)) (py_int (gf * 255)) (py_int (bf * 255))
                    (role c) (confidence c) 255))"

subsection \<open>\<open>ColorPalette\<close>\<close>

text \<open>
  A Python dict keeps insertion order, and the order of \<open>colors.values()\<close> is used by the
  quality score, so the dict is an association list with distinct keys, updated by
  \<open>AList.update\<close> (overwrite in place, or append).
\<close>

record ColorPalette =
  colors :: "(ColorRole \<times> SemanticColor) list"
  source_image :: "string option"
  extraction_method :: "string option"
  quality_score :: "real option"

text \<open>The dataclass constructor followed by \<open>__post_init__\<close>.\<close>

definition new_ColorPalette ::
  "(ColorRole \<times> SemanticColor) list \<Rightarrow> string option \<Rightarrow> string option \<Rightarrow> real option
     \<Rightarrow> error + ColorPalette" where
  "new_ColorPalette cs si em qs =
     (let required_roles = {PRIMARY, BACKGROUND, TEXT};
          missing_roles = required_roles - set (map fst cs)
      in if missing_roles \<noteq> {} then Inl ValueError
         else Inr \<lparr> colors = cs, source_image = si, extraction_method = em,
                    quality_score = qs \<rparr>)"

definition get_color :: "ColorPalette \<Rightarrow> ColorRole \<Rightarrow> SemanticColor option" where
  "get_color p ro = map_of (colors p) ro"

text \<open>\<open>self.colors[role]\<close> raises \<open>KeyError\<close> on a missing key.\<close>

definition getitem :: "ColorPalette \<Rightarrow> ColorRole \<Rightarrow> error + SemanticColor" where
  "getitem p ro = (case map_of (colors p) ro of None \<Rightarrow> Inl KeyError | Some c \<Rightarrow> Inr c)"

definition get_primary :: "ColorPalette \<Rightarrow> error + SemanticColor" where
  "get_primary p = getitem p PRIMARY"

definition get_background :: "ColorPalette \<Rightarrow> error + SemanticColor" where
  "get_background p = getitem p BACKGROUND"

definition get_text :: "ColorPalette \<Rightarrow> error + SemanticColor" where
  "get_text p = getitem p TEXT"

definition get_accent :: "ColorPalette \<Rightarrow> SemanticColor option" where
  "get_accent p = map_of (colors p) ACCENT"

text \<open>
  \<open>validate_contrast\<close>. A \<open>SemanticColor\<close> object is always truthy, so the tests
  \<open>if bg and text\<close> and \<open>if primary and bg\<close> always pass; only \<open>accent\<close> can be \<open>None\<close>.
\<close>

definition validate_contrast :: "ColorPalette \<Rightarrow> error + (string \<times> real) list" where
  "validate_contrast p =
     (case get_background p of
        Inl e \<Rightarrow> Inl e
      | Inr bg \<Rightarrow>
          (case get_text p of
             Inl e \<Rightarrow> Inl e
           | Inr text \<Rightarrow>
               (let c1 = AList.update ''text_on_background'' (contrast_ratio text bg) []
                in case get_primary p of
                     Inl e \<Rightarrow> Inl e
                   | Inr primary \<Rightarrow>
                       (let c2 = AList.update ''primary_on_background''
                                   (contrast_ratio primary bg) c1
                        in case get_accent p of
                             None \<Rightarrow> Inr c2
                           | Some accent \<Rightarrow>
                               Inr (AList.update ''accent_on_background''
                                      (contrast_ratio accent bg) c2)))))"

subsection \<open>\<open>ColorPalette.from_colors\<close>\<close>

text \<open>
  \<open>from_colors\<close> shares the \<open>SemanticColor\<close> objects between the list
  \<open>semantic_colors\<close> and the dict \<open>color_map\<close>, and assigns to their \<open>role\<close> attribute.
  The model keeps an explicit store: the sorted list is the store, an object's address is
  its position, and \<open>color_map\<close> maps a role to an address. The surface colour is a new
  object, allocated at the end of the store.
\<close>

type_synonym store = "SemanticColor list"

definition set_role :: "store \<Rightarrow> nat \<Rightarrow> ColorRole \<Rightarrow> store" where
  "set_role st a ro = st[a := (st ! a)\<lparr>role := ro\<rparr>]"

text \<open>
  The loop \<open>for color in reversed(semantic_colors)\<close> with its \<open>break\<close>:
  \<open>text_search st bg n\<close> visits the addresses \<open>n - 1\<close> down to \<open>0\<close>.
\<close>

fun text_search :: "store \<Rightarrow> SemanticColor \<Rightarrow> nat \<Rightarrow> nat option" where
  "text_search st bg 0 = None"
| "text_search st bg (Suc i) =
     (if contrast_ratio (st ! i) bg \<ge> 3.0 then Some i else text_search st bg i)"

text \<open>Python's \<open>max(xs, key=f)\<close> on a non-empty list: the first maximal element.\<close>

definition py_max_key :: "('a \<Rightarrow> real) \<Rightarrow> 'a list \<Rightarrow> 'a" where
  "py_max_key f xs = fold (\<lambda>x best. if f x > f best then x else best) (tl xs) (hd xs)"

text \<open>
  The state of the assignment: \<open>color_map\<close> (roles to addresses) and the store.
  \<open>assign ro a\<close> is the pair of statements
  \<open>color_map[ro] = obj; color_map[ro].role = ro\<close> for the object \<open>obj\<close> at address \<open>a\<close>.
\<close>

type_synonym assignment = "(ColorRole \<times> nat) list \<times> store"

definition assign :: "ColorRole \<Rightarrow> nat \<Rightarrow> assignment \<Rightarrow> assignment" where
  "assign ro a s = (AList.update ro a (fst s), set_role (snd s) a ro)"

text \<open>
  The text colour: the loop and the fallback \<open>semantic_colors[-1]\<close>. The background
  \<open>bg = color_map[BACKGROUND]\<close> is the object at address 0.
\<close>

definition text_address :: "store \<Rightarrow> nat" where
  "text_address st =
     (case text_search st (st ! 0) (length st) of
        Some i \<Rightarrow> i
      | None \<Rightarrow> length st - 1)"

text \<open>
  The primary colour: the most saturated of \<open>semantic_colors[1:-1]\<close> (of
  \<open>semantic_colors[1:2]\<close> when there are at most two colours), and the colour at
  \<open>len(semantic_colors) // 2\<close> when that slice is empty.
\<close>

definition primary_address :: "store \<Rightarrow> nat" where
  "primary_address st =
     (let n = length st;
          middle = (if n > 2 then [1 ..< n - 1] else [1 ..< min 2 n])
      in if middle \<noteq> [] then py_max_key (\<lambda>i. fst (snd (hsl (st ! i)))) middle
         else n div 2)"

text \<open>
  \<open>[c for c in semantic_colors if c not in color_map.values()]\<close>: membership compares
  the dataclass fields, the role included.
\<close>

definition remaining_addresses :: "assignment \<Rightarrow> nat list" where
  "remaining_addresses s =
     filter (\<lambda>i. snd s ! i \<notin> set (map (\<lambda>ka. snd s ! snd ka) (fst s)))
       [0 ..< length (snd s)]"

text \<open>The surface colour is a new object, stored at the next free address.\<close>

definition add_surface :: "assignment \<Rightarrow> assignment" where
  "add_surface s =
     (if SURFACE \<notin> set (map fst (fst s))
      then (AList.update SURFACE (length (snd s)) (fst s),
            snd s @ [(lighten (snd s ! 0) 0.05)\<lparr>role := SURFACE\<rparr>])
      else s)"

text \<open>
  The list \<open>semantic_colors\<close> after \<open>sort(key=luminance)\<close>; Python's sort is stable,
  as \<open>sort_key\<close> is.
\<close>

definition semantic_colors :: "(int \<times> int \<times> int) list \<Rightarrow> store" where
  "semantic_colors cols =
     sort_key luminance (map (\<lambda>(x, y, z). from_rgb x y z PRIMARY) cols)"

definition from_colors_assign :: "(int \<times> int \<times> int) list \<Rightarrow> assignment" where
  "from_colors_assign cols =
     (let st0 = semantic_colors cols;
          s1 = assign BACKGROUND 0 ([], st0);
          s2 = assign TEXT (text_address (snd s1)) s1;
          s3 = assign PRIMARY (primary_address (snd s2)) s2;
          remaining = remaining_addresses s3;
          s4 = (if remaining \<noteq> [] then assign SECONDARY (remaining ! 0) s3 else s3);
          s5 = (if length remaining > 1 then assign ACCENT (remaining ! 1) s4 else s4)
      in add_surface s5)"

definition from_colors :: "(int \<times> int \<times> int) list \<Rightarrow> string option \<Rightarrow> error + ColorPalette" where
  "from_colors cols si =
     (if length cols < 3 then Inl ValueError
      else (case from_colors_assign cols of
              (cm, st) \<Rightarrow>
                new_ColorPalette (map (\<lambda>ka. (fst ka, st ! snd ka)) cm) si
                  (Some ''automatic_assignment'') None))"

section \<open>Colour extraction (core/color\_extractor.py)\<close>

subsection \<open>The quality score\<close>

text \<open>\<open>numpy.mean\<close> and \<open>numpy.std\<close> (the population standard deviation) of a list.\<close>

definition np_mean :: "real list \<Rightarrow> real" where
  "np_mean xs = sum_list xs / real (length xs)"

definition np_std :: "real list \<Rightarrow> real" where
  "np_std xs = sqrt (np_mean (map (\<lambda>x. \<bar>x - np_mean xs\<bar> ^ 2) xs))"

text \<open>
  The conversion \<open>colorspacious.cspace_convert(_, "sRGB1", "CIELab")\<close> belongs to a
  library; it is a parameter \<open>lab\<close> of the functions that call it.
\<close>

type_synonym lab_convert = "real \<times> real \<times> real \<Rightarrow> real \<times> real \<times> real"

definition lab_distance :: "lab_convert \<Rightarrow> SemanticColor \<Rightarrow> SemanticColor \<Rightarrow> real" where
  "lab_distance lab color1 color2 =
     (case lab (rgb_float color1) of
        (l1, a1, b1) \<Rightarrow>
          (case lab (rgb_float color2) of
             (l2, a2, b2) \<Rightarrow> sqrt ((l1 - l2) ^ 2 + (a1 - a2) ^ 2 + (b1 - b2) ^ 2)))"

text \<open>The distances that the two nested loops add up, in the order of the loops.\<close>

fun pair_distances :: "lab_convert \<Rightarrow> SemanticColor list \<Rightarrow> real list" where
  "pair_distances lab [] = []"
| "pair_distances lab (c # cs) = map (lab_distance lab c) cs @ pair_distances lab cs"

definition calculate_color_diversity :: "lab_convert \<Rightarrow> SemanticColor list \<Rightarrow> real" where
  "calculate_color_diversity lab cs =
     (if length cs < 2 then 0.0
      else
        (let ds = pair_distances lab cs;
             total_distance = sum_list ds;
             comparisons = length ds;
             avg_distance = (if comparisons > 0 then total_distance / real comparisons else 0)
         in min 1.0 (avg_distance / 100.0)))"

definition calculate_saturation_balance :: "SemanticColor list \<Rightarrow> real" where
  "calculate_saturation_balance cs =
     (let saturations = map (\<lambda>c. fst (snd (hsl c))) cs
      in if saturations = [] then 0.0
         else min 1.0 (np_std saturations / 50.0))"

definition calculate_luminance_distribution :: "SemanticColor list \<Rightarrow> real" where
  "calculate_luminance_distribution cs =
     (let luminances = map luminance cs
      in if luminances = [] then 0.0
         else
           (let luminance_range = Max (set luminances) - Min (set luminances);
                luminance_std = np_std luminances;
                range_score = luminance_range;
                std_score = min 1.0 (luminance_std * 2)
            in (range_score + std_score) / 2))"

text \<open>
  \<open>_calculate_quality_score\<close>. The argument \<open>image\<close> is not used by the source either.
\<close>

definition quality_scores ::
  "lab_convert \<Rightarrow> ColorPalette \<Rightarrow> error + (string \<times> real \<times> real) list" where
  "quality_scores lab palette =
     (case validate_contrast palette of
        Inl e \<Rightarrow> Inl e
      | Inr contrast_ratios \<Rightarrow>
          (let text_contrast = (case map_of contrast_ratios ''text_on_background'' of
                                  Some v \<Rightarrow> v | None \<Rightarrow> 1.0);
               contrast_score = min 1.0 (text_contrast / 4.5);
               cs = map snd (colors palette);
               diversity_score = calculate_color_diversity lab cs;
               saturation_score = calculate_saturation_balance cs;
               luminance_score = calculate_luminance_distribution cs;
               confidence_score = np_mean (map confidence cs)
           in Inr [(''contrast'', contrast_score, 0.3),
                   (''diversity'', diversity_score, 0.25),
                   (''saturation'', saturation_score, 0.2),
                   (''luminance'', luminance_score, 0.15),
                   (''confidence'', confidence_score, 0.1)]))"

definition calculate_quality_score :: "lab_convert \<Rightarrow> ColorPalette \<Rightarrow> 'img \<Rightarrow> error + real" where
  "calculate_quality_score lab palette img =
     (case quality_scores lab palette of
        Inl e \<Rightarrow> Inl e
      | Inr scores \<Rightarrow>
          (let total_score = sum_list (map (\<lambda>(name, score, weight). score * weight) scores)
           in Inr (min 1.0 (max 0.0 total_score))))"

subsection \<open>Extraction methods and their fallbacks\<close>

datatype ColorExtractionMethod = KMEANS_LAB | KMEANS_RGB | MEDIAN_CUT | COLORTHIEF | ADAPTIVE

text \<open>
  The clustering and quantisation themselves are done by libraries (scikit-learn, Pillow,
  ColorThief, colorspacious). They are the fields of \<open>libs\<close>; each may raise.
  \<open>extract_kmeans_lab\<close> and \<open>extract_median_cut\<close> stand for the methods
  \<open>_extract_kmeans_lab\<close> and \<open>_extract_median_cut\<close>, which only call the libraries.
\<close>

record 'img libs =
  extract_kmeans_lab :: "'img \<Rightarrow> int \<Rightarrow> error + (int \<times> int \<times> int) list"
  extract_median_cut :: "'img \<Rightarrow> int \<Rightarrow> error + (int \<times> int \<times> int) list"
  colorthief_get_color :: "string \<Rightarrow> error + (int \<times> int \<times> int)"
  colorthief_get_palette :: "string \<Rightarrow> int \<Rightarrow> error + (int \<times> int \<times> int) list"
  image_open_rgb :: "string \<Rightarrow> error + 'img"
  cspace_convert :: lab_convert

text \<open>The body of the \<open>try\<close> block of \<open>_extract_colorthief\<close>.\<close>

definition colorthief_try :: "'img libs \<Rightarrow> string \<Rightarrow> int \<Rightarrow> error + (int \<times> int \<times> int) list" where
  "colorthief_try L image_path num_colors =
     (if num_colors = 1
      then (case colorthief_get_color L image_path of
              Inl e \<Rightarrow> Inl e | Inr dominant \<Rightarrow> Inr [dominant])
      else colorthief_get_palette L image_path num_colors)"

definition extract_colorthief :: "'img libs \<Rightarrow> string \<Rightarrow> int \<Rightarrow> error + (int \<times> int \<times> int) list" where
  "extract_colorthief L image_path num_colors =
     (case colorthief_try L image_path num_colors of
        Inr cols \<Rightarrow> Inr cols
      | Inl e \<Rightarrow>
          (case image_open_rgb L image_path of
             Inl e' \<Rightarrow> Inl e'
           | Inr img \<Rightarrow> extract_median_cut L img num_colors))"

definition methods_to_try :: "(ColorExtractionMethod \<times> int) list" where
  "methods_to_try = [(KMEANS_LAB, 6), (COLORTHIEF, 5), (MEDIAN_CUT, 7)]"

text \<open>The body of the \<open>try\<close> block inside the loop of \<open>_extract_adaptive\<close>.\<close>

definition adaptive_try ::
  "'img libs \<Rightarrow> 'img \<Rightarrow> string \<Rightarrow> ColorExtractionMethod \<times> int
     \<Rightarrow> error + ((int \<times> int \<times> int) list \<times> real \<times> ColorExtractionMethod)" where
  "adaptive_try L img image_path mn =
     (case mn of
        (method, num_colors) \<Rightarrow>
          (case (if method = KMEANS_LAB then extract_kmeans_lab L img num_colors
                 else if method = COLORTHIEF then extract_colorthief L image_path num_colors
                 else extract_median_cut L img num_colors) of
             Inl e \<Rightarrow> Inl e
           | Inr cols \<Rightarrow>
               (case from_colors cols (Some image_path) of
                  Inl e \<Rightarrow> Inl e
                | Inr temp_palette \<Rightarrow>
                    (case calculate_quality_score (cspace_convert L) temp_palette img of
                       Inl e \<Rightarrow> Inl e
                     | Inr quality \<Rightarrow> Inr (cols, quality, method)))))"

definition adaptive_results ::
  "'img libs \<Rightarrow> 'img \<Rightarrow> string
     \<Rightarrow> ((int \<times> int \<times> int) list \<times> real \<times> ColorExtractionMethod) list" where
  "adaptive_results L img image_path =
     fold (\<lambda>mn results. case adaptive_try L img image_path mn of
                           Inl e \<Rightarrow> results
                         | Inr res \<Rightarrow> results @ [res])
       methods_to_try []"

definition extract_adaptive :: "'img libs \<Rightarrow> 'img \<Rightarrow> string \<Rightarrow> error + (int \<times> int \<times> int) list" where
  "extract_adaptive L img image_path =
     (let results = adaptive_results L img image_path
      in if results = [] then extract_median_cut L img 5
         else Inr (fst (py_max_key (\<lambda>x. fst (snd x)) results)))"

section \<open>Applying and restoring themes (core/theme\_applier.py)\<close>



text \<open>
  \<open>ApplicationConfig\<close> without its field \<open>backup_path\<close>, which no function below reads.
  In \<open>ThemeApplication\<close> the fields \<open>output_path\<close> and \<open>error\<close> of the source are named
  \<open>result_path\<close> and \<open>error_message\<close>, since \<open>output_path\<close> is a field of
  \<open>ApplicationConfig\<close> and \<open>error\<close> is the type of exceptions here. An error message is
  kept up to the text of the exception that the source appends to it.
\<close>

record ApplicationConfig =
  name :: string
  template_path :: string
  output_path :: string
  reload_command :: "string option"
  reload_delay :: real
  enabled :: bool
  requires_restart :: bool







subsection \<open>Restoring\<close>









section \<open>Properties of the colour types\<close>

subsection \<open>Hexadecimal formatting and parsing\<close>

lemma lt16_cases:
  "d < (16::nat) \<Longrightarrow> d = 0 \<or> d = 1 \<or> d = 2 \<or> d = 3 \<or> d = 4 \<or> d = 5 \<or> d = 6 \<or> d = 7
     \<or> d = 8 \<or> d = 9 \<or> d = 10 \<or> d = 11 \<or> d = 12 \<or> d = 13 \<or> d = 14 \<or> d = 15"
  by arith

lemma hex_digit_props:
  assumes "d < 16"
  shows "is_lower_hex (hex_digit d)" and "hex_val (hex_digit d) = Some d"
    and "\<not> py_isspace (hex_digit d)" and "hex_digit d \<noteq> CHR ''-''" and "hex_digit d \<noteq> CHR ''+''"
    and "hex_digit d \<noteq> CHR ''#''"
  using lt16_cases [OF assms]
  by (auto simp: hex_digit_def is_lower_hex_def hex_val_def py_isspace_def)

lemma format_02x_byte:
  assumes "0 \<le> i" "i \<le> 255"
  shows "format_02x i = [hex_digit (nat i div 16), hex_digit (nat i mod 16)]"
proof (cases "nat i < 16")
  case True
  then have "hex_digits (nat i) = [hex_digit (nat i)]" by (simp add: hex_digits.simps)
  moreover have "hex_digit (nat i div 16) = CHR ''0''" using True by (simp add: hex_digit_def)
  ultimately show ?thesis using assms True by (simp add: format_02x_def)
next
  case False
  then have "nat i div 16 < 16" using assms by simp
  then have "hex_digits (nat i) = [hex_digit (nat i div 16), hex_digit (nat i mod 16)]"
    using False by (simp add: hex_digits.simps [of "nat i"] hex_digits.simps [of "nat i div 16"])
  then show ?thesis using assms by (simp add: format_02x_def)
qed

lemma int16_two_digits:
  assumes "p < 16" "q < 16"
  shows "int16 [hex_digit p, hex_digit q] = Inr (int (16 * p + q))"
  using hex_digit_props [OF assms(1)] hex_digit_props [OF assms(2)]
  by (simp add: int16_def strip_ws_def)

lemma channel_range:
  "0 \<le> max 0 (min 255 (v::int))" "max 0 (min 255 (v::int)) \<le> 255"
  by simp_all

lemma hex_of_channels:
  assumes "0 \<le> r c" "r c \<le> 255" "0 \<le> g c" "g c \<le> 255" "0 \<le> b c" "b c \<le> 255"
  shows "hex c = CHR ''#'' #
           [hex_digit (nat (r c) div 16), hex_digit (nat (r c) mod 16),
            hex_digit (nat (g c) div 16), hex_digit (nat (g c) mod 16),
            hex_digit (nat (b c) div 16), hex_digit (nat (b c) mod 16)]"
  using assms by (simp add: hex_def format_02x_byte)

lemma byte_digits: "0 \<le> (i::int) \<Longrightarrow> i \<le> 255 \<Longrightarrow> nat i div 16 < 16 \<and> nat i mod 16 < 16"
  by simp

lemma from_hex_hex:
  assumes "0 \<le> r c" "r c \<le> 255" "0 \<le> g c" "g c \<le> 255" "0 \<le> b c" "b c \<le> 255"
  shows "from_hex (hex c) ro = Inr (from_rgb (r c) (g c) (b c) ro)"
proof -
  note dr = byte_digits [OF assms(1,2)] and dg = byte_digits [OF assms(3,4)]
    and db = byte_digits [OF assms(5,6)]
  have strip: "lstrip_hash (hex c) =
           [hex_digit (nat (r c) div 16), hex_digit (nat (r c) mod 16),
            hex_digit (nat (g c) div 16), hex_digit (nat (g c) mod 16),
            hex_digit (nat (b c) div 16), hex_digit (nat (b c) mod 16)]"
    using hex_digit_props(6) [of "nat (r c) div 16"] dr
    by (simp add: hex_of_channels [OF assms] lstrip_hash_def)
  have recomb: "\<And>i. 0 \<le> i \<Longrightarrow> int (16 * (nat i div 16) + nat i mod 16) = i"
    by simp
  show ?thesis
    using dr dg db assms
    by (simp add: from_hex_def strip parse_rgb_def int16_two_digits recomb del: of_nat_add of_nat_mult)
qed

lemma hex_digit_char:
  assumes "is_hex_digit c"
  shows "\<not> py_isspace c" "c \<noteq> CHR ''-''" "c \<noteq> CHR ''+''" "c \<noteq> CHR ''#''"
  using assms
  by (auto simp: is_hex_digit_def hex_val_def py_isspace_def Let_def split: if_splits)

lemma int16_hex_pair:
  assumes "is_hex_digit x" "is_hex_digit y"
  shows "\<exists>v. int16 [x, y] = Inr v"
  using assms hex_digit_char [OF assms(1)] hex_digit_char [OF assms(2)]
  by (auto simp: int16_def strip_ws_def is_hex_digit_def)

text \<open>
  Claim C8. Whatever arguments the constructor of \<open>SemanticColor\<close> receives, each of the
  channels \<open>r\<close>, \<open>g\<close>, \<open>b\<close> and \<open>alpha\<close> of the constructed colour is the argument clamped
  into 0..255 (the argument itself when it is in range, 0 when it is below, 255 when it is
  above), and the confidence is the argument clamped into 0..1 in the same way; the role
  is the argument unchanged. So every channel lies in 0..255 and the confidence in 0..1;
  and the \<open>hex\<close> property of the constructed colour is the character \<open>#\<close> followed by
  exactly six lowercase hexadecimal digits.
\<close>

theorem C8_clamped_and_hex_form:
  "r (new_SemanticColor rv gv bv ro cf al) = (if rv < 0 then 0 else if 255 < rv then 255 else rv)
   \<and> g (new_SemanticColor rv gv bv ro cf al) = (if gv < 0 then 0 else if 255 < gv then 255 else gv)
   \<and> b (new_SemanticColor rv gv bv ro cf al) = (if bv < 0 then 0 else if 255 < bv then 255 else bv)
   \<and> alpha (new_SemanticColor rv gv bv ro cf al)
       = (if al < 0 then 0 else if 255 < al then 255 else al)
   \<and> confidence (new_SemanticColor rv gv bv ro cf al)
       = (if cf < 0 then 0 else if 1 < cf then 1 else cf)
   \<and> role (new_SemanticColor rv gv bv ro cf al) = ro
   \<and> 0 \<le> r (new_SemanticColor rv gv bv ro cf al) \<and> r (new_SemanticColor rv gv bv ro cf al) \<le> 255
   \<and> 0 \<le> g (new_SemanticColor rv gv bv ro cf al) \<and> g (new_SemanticColor rv gv bv ro cf al) \<le> 255
   \<and> 0 \<le> b (new_SemanticColor rv gv bv ro cf al) \<and> b (new_SemanticColor rv gv bv ro cf al) \<le> 255
   \<and> 0 \<le> alpha (new_SemanticColor rv gv bv ro cf al)
   \<and> alpha (new_SemanticColor rv gv bv ro cf al) \<le> 255
   \<and> 0 \<le> confidence (new_SemanticColor rv gv bv ro cf al)
   \<and> confidence (new_SemanticColor rv gv bv ro cf al) \<le> 1
   \<and> (\<exists>ds. hex (new_SemanticColor rv gv bv ro cf al) = CHR ''#'' # ds \<and> length ds = 6
          \<and> list_all is_lower_hex ds)"
proof -
  let ?c = "new_SemanticColor rv gv bv ro cf al"
  have clamp: "r ?c = (if rv < 0 then 0 else if 255 < rv then 255 else rv)"
    "g ?c = (if gv < 0 then 0 else if 255 < gv then 255 else gv)"
    "b ?c = (if bv < 0 then 0 else if 255 < bv then 255 else bv)"
    "alpha ?c = (if al < 0 then 0 else if 255 < al then 255 else al)"
    "confidence ?c = (if cf < 0 then 0 else if 1 < cf then 1 else cf)"
    "role ?c = ro"
    by (simp_all add: new_SemanticColor_def max_def min_def)
  have rng: "0 \<le> r ?c" "r ?c \<le> 255" "0 \<le> g ?c" "g ?c \<le> 255" "0 \<le> b ?c" "b ?c \<le> 255"
    "0 \<le> alpha ?c" "alpha ?c \<le> 255" "0 \<le> confidence ?c" "confidence ?c \<le> 1"
    by (simp_all add: new_SemanticColor_def)
  have "list_all is_lower_hex
          [hex_digit (nat (r ?c) div 16), hex_digit (nat (r ?c) mod 16),
           hex_digit (nat (g ?c) div 16), hex_digit (nat (g ?c) mod 16),
           hex_digit (nat (b ?c) div 16), hex_digit (nat (b ?c) mod 16)]"
    using byte_digits [OF rng(1,2)] byte_digits [OF rng(3,4)] byte_digits [OF rng(5,6)]
    by (simp add: hex_digit_props(1))
  then have "\<exists>ds. hex ?c = CHR ''#'' # ds \<and> length ds = 6 \<and> list_all is_lower_hex ds"
    by (simp add: hex_of_channels [OF rng(1-6)])
  with rng clamp show ?thesis by (intro conjI) assumption+
qed

theorem C8_clamped_and_hex_form_witness:
  "r (new_SemanticColor 300 (- 5) 100 TEXT 2 (- 1)) = 255
   \<and> g (new_SemanticColor 300 (- 5) 100 TEXT 2 (- 1)) = 0
   \<and> b (new_SemanticColor 300 (- 5) 100 TEXT 2 (- 1)) = 100
   \<and> alpha (new_SemanticColor 300 (- 5) 100 TEXT 2 (- 1)) = 0
   \<and> confidence (new_SemanticColor 300 (- 5) 100 TEXT 2 (- 1)) = 1
   \<and> (\<exists>ds. hex (new_SemanticColor 300 (- 5) 100 TEXT 2 (- 1)) = CHR ''#'' # ds
          \<and> length ds = 6 \<and> list_all is_lower_hex ds)"
  using C8_clamped_and_hex_form [of 300 "- 5" 100 TEXT 2 "- 1"] by simp

lemma parse_rgb_hex6:
  assumes "list_all is_hex_digit [x1, x2, x3, x4, x5, x6]"
  shows "\<exists>col. parse_rgb [x1, x2, x3, x4, x5, x6] ro = Inr col"
proof -
  from assms obtain v1 v2 v3 where
    "int16 [x1, x2] = Inr v1" "int16 [x3, x4] = Inr v2" "int16 [x5, x6] = Inr v3"
    using int16_hex_pair [of x1 x2] int16_hex_pair [of x3 x4] int16_hex_pair [of x5 x6]
    by auto
  then show ?thesis by (simp add: parse_rgb_def)
qed

lemma lstrip_hash_hex:
  assumes "is_hex_digit x"
  shows "lstrip_hash (x # xs) = x # xs" "lstrip_hash (CHR ''#'' # x # xs) = x # xs"
  using hex_digit_char(4) [OF assms] by (simp_all add: lstrip_hash_def)

lemma from_hex_accepts:
  assumes "list_all is_hex_digit s" "length s \<in> {3, 6, 8}"
  shows "\<exists>col. from_hex s ro = Inr col \<and> from_hex (CHR ''#'' # s) ro = Inr col"
proof -
  consider "length s = 3" | "length s = 6" | "length s = 8" using assms(2) by auto
  then show ?thesis
  proof cases
    case 1
    then obtain x1 x2 x3 where s: "s = [x1, x2, x3]"
      by (auto simp: numeral_eq_Suc length_Suc_conv)
    have "list_all is_hex_digit [x1, x1, x2, x2, x3, x3]" using assms(1) s by simp
    from parse_rgb_hex6 [OF this, of ro] obtain col where
      "parse_rgb [x1, x1, x2, x2, x3, x3] ro = Inr col" by blast
    moreover have "is_hex_digit x1" using assms(1) s by simp
    ultimately show ?thesis
      by (simp add: from_hex_def s lstrip_hash_hex)
  next
    case 2
    then obtain x1 x2 x3 x4 x5 x6 where s: "s = [x1, x2, x3, x4, x5, x6]"
      by (auto simp: numeral_eq_Suc length_Suc_conv)
    from parse_rgb_hex6 [of x1 x2 x3 x4 x5 x6 ro] assms(1) obtain col where
      "parse_rgb [x1, x2, x3, x4, x5, x6] ro = Inr col" unfolding s by blast
    moreover have "is_hex_digit x1" using assms(1) s by simp
    ultimately show ?thesis
      by (simp add: from_hex_def s lstrip_hash_hex)
  next
    case 3
    then obtain x1 x2 x3 x4 x5 x6 x7 x8 where s: "s = [x1, x2, x3, x4, x5, x6, x7, x8]"
      by (auto simp: numeral_eq_Suc length_Suc_conv)
    have "list_all is_hex_digit [x1, x2, x3, x4, x5, x6]" using assms(1) s by simp
    from parse_rgb_hex6 [OF this, of ro] obtain col where
      "parse_rgb [x1, x2, x3, x4, x5, x6] ro = Inr col" by blast
    moreover obtain v where "int16 [x7, x8] = Inr v"
      using int16_hex_pair [of x7 x8] assms(1) s by auto
    moreover have "is_hex_digit x1" using assms(1) s by simp
    ultimately show ?thesis
      by (simp add: from_hex_def s lstrip_hash_hex)
  qed
qed

text \<open>
  Claim C10. For every constructed colour \<open>c\<close>, \<open>from_hex (hex c)\<close> succeeds and yields a
  colour with the same \<open>r\<close>, \<open>g\<close> and \<open>b\<close>. A string of 3, 6 or 8 hexadecimal digits
  is accepted by \<open>from_hex\<close>, with or without a leading \<open>#\<close>; and a string whose length
  after stripping the leading \<open>#\<close> characters is not 3, 6 or 8 raises \<open>ValueError\<close>.
\<close>

theorem C10_hex_round_trip:
  "(\<exists>c'. from_hex (hex (new_SemanticColor rv gv bv ro cf al)) ro' = Inr c'
          \<and> r c' = r (new_SemanticColor rv gv bv ro cf al)
          \<and> g c' = g (new_SemanticColor rv gv bv ro cf al)
          \<and> b c' = b (new_SemanticColor rv gv bv ro cf al))
   \<and> (list_all is_hex_digit s \<and> length s \<in> {3, 6, 8} \<longrightarrow>
        (\<exists>col. from_hex s ro' = Inr col \<and> from_hex (CHR ''#'' # s) ro' = Inr col))
   \<and> (length (lstrip_hash t) \<notin> {3, 6, 8} \<longrightarrow> from_hex t ro' = Inl ValueError)"
proof -
  let ?c = "new_SemanticColor rv gv bv ro cf al"
  have rng: "0 \<le> r ?c" "r ?c \<le> 255" "0 \<le> g ?c" "g ?c \<le> 255" "0 \<le> b ?c" "b ?c \<le> 255"
    by (simp_all add: new_SemanticColor_def)
  have "from_hex (hex ?c) ro' = Inr (from_rgb (r ?c) (g ?c) (b ?c) ro')"
    by (rule from_hex_hex [OF rng])
  moreover have "r (from_rgb (r ?c) (g ?c) (b ?c) ro') = r ?c"
    "g (from_rgb (r ?c) (g ?c) (b ?c) ro') = g ?c" "b (from_rgb (r ?c) (g ?c) (b ?c) ro') = b ?c"
    using rng by (simp_all add: from_rgb_def new_SemanticColor_def)
  ultimately have part1: "\<exists>c'. from_hex (hex ?c) ro' = Inr c' \<and> r c' = r ?c \<and> g c' = g ?c
      \<and> b c' = b ?c" by simp
  have part3: "length (lstrip_hash t) \<notin> {3, 6, 8} \<longrightarrow> from_hex t ro' = Inl ValueError"
    by (simp add: from_hex_def Let_def)
  from part1 part3 from_hex_accepts [of s ro'] show ?thesis by blast
qed

theorem C10_hex_round_trip_witness:
  "list_all is_hex_digit ''0aF'' \<and> length ''0aF'' \<in> {3, 6, 8 :: nat}
   \<and> (\<exists>col. from_hex ''0aF'' PRIMARY = Inr col \<and> from_hex ''#0aF'' PRIMARY = Inr col)
   \<and> length (lstrip_hash ''#12'') \<notin> {3, 6, 8 :: nat}
   \<and> from_hex ''#12'' PRIMARY = Inl ValueError"
  using C10_hex_round_trip [of 1 2 3 TEXT 1 255 PRIMARY "''0aF''" "''#12''"]
  by (simp add: is_hex_digit_def hex_val_def lstrip_hash_def)

lemma set_update_subset: "set (AList.update k v al) \<subseteq> insert (k, v) (set al)"
  by (induction al) auto

lemma keys_update: "fst ` set (AList.update k v al) = insert k (fst ` set al)"
  by (induction al) auto

lemma gamma_correct_nonneg: "0 \<le> x \<Longrightarrow> 0 \<le> gamma_correct x"
  by (simp add: gamma_correct_def)

lemma luminance_nonneg:
  assumes "0 \<le> r c" "0 \<le> g c" "0 \<le> b c"
  shows "0 \<le> luminance c"
proof -
  have "0 \<le> gamma_correct (real_of_int (r c) / 255)" "0 \<le> gamma_correct (real_of_int (g c) / 255)"
    "0 \<le> gamma_correct (real_of_int (b c) / 255)"
    using assms by (simp_all add: gamma_correct_nonneg)
  then show ?thesis by (simp add: luminance_def rgb_float_def)
qed

lemma luminance_role [simp]: "luminance (c\<lparr>role := ro\<rparr>) = luminance c"
  by (simp add: luminance_def rgb_float_def)

lemma hsl_role [simp]: "hsl (c\<lparr>role := ro\<rparr>) = hsl c"
  by (simp add: hsl_def)

lemma contrast_ratio_role [simp]:
  "contrast_ratio (c\<lparr>role := ro\<rparr>) d = contrast_ratio c d"
  "contrast_ratio c (d\<lparr>role := ro\<rparr>) = contrast_ratio c d"
  by (simp_all add: contrast_ratio_def)

lemma contrast_ratio_self: "0 \<le> luminance c \<Longrightarrow> contrast_ratio c c = 1"
  by (simp add: contrast_ratio_def Let_def)

lemma contrast_ratio_lighter:
  assumes "luminance d \<le> luminance c"
  shows "contrast_ratio c d = (luminance c + 0.05) / (luminance d + 0.05)"
proof -
  have "max (luminance c) (luminance d) = luminance c"
    "min (luminance c) (luminance d) = luminance d"
    using assms by simp_all
  then show ?thesis by (simp add: contrast_ratio_def Let_def)
qed

lemma contrast_ratio_mono:
  assumes "0 \<le> luminance d" "luminance d \<le> luminance c" "luminance c \<le> luminance c'"
  shows "contrast_ratio c d \<le> contrast_ratio c' d"
proof -
  have "luminance d \<le> luminance c'" using assms by simp
  then have "contrast_ratio c' d = (luminance c' + 0.05) / (luminance d + 0.05)"
    by (rule contrast_ratio_lighter)
  moreover have "contrast_ratio c d = (luminance c + 0.05) / (luminance d + 0.05)"
    using assms(2) by (rule contrast_ratio_lighter)
  moreover have "0 < luminance d + 0.05" using assms(1) by simp
  ultimately show ?thesis using assms(3) by (simp add: divide_right_mono)
qed

lemma text_search_Some:
  "text_search st bg n = Some i \<Longrightarrow> i < n \<and> 3 \<le> contrast_ratio (st ! i) bg"
  by (induction n) (auto split: if_splits)

lemma text_search_None:
  "text_search st bg n = None \<Longrightarrow> j < n \<Longrightarrow> contrast_ratio (st ! j) bg < 3"
  by (induction n) (auto split: if_splits simp: less_Suc_eq)

lemma text_search_last:
  "3 \<le> contrast_ratio (st ! n) bg \<Longrightarrow> text_search st bg (Suc n) = Some n"
  by simp

lemma update_fresh: "k \<notin> fst ` set al \<Longrightarrow> AList.update k v al = al @ [(k, v)]"
  by (induction al) auto

lemma fold_max_key:
  "fold (\<lambda>x best. if f x > f best then x else best) ys y \<in> insert y (set ys)
   \<and> (f y :: real) \<le> f (fold (\<lambda>x best. if f x > f best then x else best) ys y)
   \<and> (\<forall>x\<in>set ys. f x \<le> f (fold (\<lambda>x best. if f x > f best then x else best) ys y))"
proof (induction ys arbitrary: y)
  case Nil
  then show ?case by simp
next
  case (Cons x xs)
  show ?case
  proof (cases "f x > f y")
    case True
    with Cons [of x] show ?thesis by auto
  next
    case False
    with Cons [of y] show ?thesis by auto
  qed
qed

lemma py_max_key_props:
  assumes "xs \<noteq> []"
  shows "py_max_key f xs \<in> set xs" and "\<forall>x\<in>set xs. f x \<le> f (py_max_key f xs)"
proof -
  from assms obtain y ys where xs: "xs = y # ys" by (cases xs) auto
  from fold_max_key [of f ys y] show "py_max_key f xs \<in> set xs"
    by (simp add: py_max_key_def xs)
  from fold_max_key [of f ys y] show "\<forall>x\<in>set xs. f x \<le> f (py_max_key f xs)"
    by (simp add: py_max_key_def xs)
qed

lemma text_search_all_below:
  "\<forall>j<n. contrast_ratio (st ! j) bg < 3 \<Longrightarrow> text_search st bg n = None"
proof (induction n)
  case 0
  then show ?case by simp
next
  case (Suc n)
  then have "contrast_ratio (st ! n) bg < 3" by simp
  moreover have "text_search st bg n = None" using Suc by simp
  ultimately show ?case by simp
qed

lemma semantic_colors_length [simp]: "length (semantic_colors cols) = length cols"
  by (simp add: semantic_colors_def)

lemma semantic_colors_sorted: "sorted (map luminance (semantic_colors cols))"
  by (simp add: semantic_colors_def)

lemma semantic_colors_luminance_nonneg:
  assumes "j < length cols"
  shows "0 \<le> luminance (semantic_colors cols ! j)"
proof -
  have "semantic_colors cols ! j \<in> set (semantic_colors cols)"
    using assms by simp
  then have "semantic_colors cols ! j \<in> set (map (\<lambda>(x, y, z). from_rgb x y z PRIMARY) cols)"
    by (simp add: semantic_colors_def)
  then obtain x y z where "semantic_colors cols ! j = from_rgb x y z PRIMARY" by auto
  then show ?thesis
    by (simp add: luminance_nonneg from_rgb_def new_SemanticColor_def)
qed

lemma semantic_colors_mono:
  assumes "i \<le> j" "j < length cols"
  shows "luminance (semantic_colors cols ! i) \<le> luminance (semantic_colors cols ! j)"
proof -
  have "map luminance (semantic_colors cols) ! i \<le> map luminance (semantic_colors cols) ! j"
    using semantic_colors_sorted [of cols] assms by (simp add: sorted_iff_nth_mono)
  then show ?thesis using assms by simp
qed

lemma remaining_addresses_props:
  "i \<in> set (remaining_addresses (cm, st)) \<Longrightarrow> i < length st \<and> i \<notin> snd ` set cm"
  "distinct (remaining_addresses (cm, st))"
  by (auto simp: remaining_addresses_def)

lemma text_address_last:
  assumes "3 \<le> length cols"
  shows "text_address ((semantic_colors cols)
           [0 := (semantic_colors cols ! 0)\<lparr>role := BACKGROUND\<rparr>]) = length cols - 1"
proof -
  let ?sc = "semantic_colors cols"
  let ?b0 = "(?sc ! 0)\<lparr>role := BACKGROUND\<rparr>"
  let ?st = "?sc[0 := ?b0]"
  let ?n = "length cols"
  have len: "length ?st = ?n" by simp
  have ne: "cols \<noteq> []" using assms by auto
  have st0: "?st ! 0 = ?b0" using ne by simp
  have lum: "luminance (?st ! j) = luminance (?sc ! j)" if "j < ?n" for j
    using that ne by (cases "j = 0") simp_all
  have b0: "0 \<le> luminance ?b0" using semantic_colors_luminance_nonneg [of 0 cols] ne by simp
  have mono: "contrast_ratio (?st ! j) ?b0 \<le> contrast_ratio (?st ! (?n - 1)) ?b0" if "j < ?n" for j
  proof (rule contrast_ratio_mono [OF b0])
    show "luminance ?b0 \<le> luminance (?st ! j)"
      using semantic_colors_mono [of 0 j cols] that ne by (simp add: lum)
    show "luminance (?st ! j) \<le> luminance (?st ! (?n - 1))"
      using semantic_colors_mono [of j "?n - 1" cols] that ne by (simp add: lum)
  qed
  obtain m where m: "?n = Suc m" using ne by (cases cols) auto
  have m1: "?n - 1 = m" using m by simp
  show ?thesis
  proof (cases "3 \<le> contrast_ratio (?st ! m) ?b0")
    case True
    then have "text_search ?st ?b0 (Suc m) = Some m" by (rule text_search_last)
    then have "text_search ?st (?st ! 0) (length ?st) = Some m" by (simp only: st0 len m)
    then have "text_address ?st = m" by (simp only: text_address_def option.case)
    then show ?thesis by (simp only: m1)
  next
    case False
    then have "\<forall>j<?n. contrast_ratio (?st ! j) ?b0 < 3" using mono m1 by fastforce
    then have "text_search ?st ?b0 ?n = None" by (rule text_search_all_below)
    then have "text_search ?st (?st ! 0) (length ?st) = None" by (simp only: st0 len)
    then have "text_address ?st = length ?st - 1" by (simp only: text_address_def option.case)
    then show ?thesis by (simp only: len)
  qed
qed

lemma primary_address_props:
  assumes "3 \<le> length st"
  shows "1 \<le> primary_address st" and "primary_address st < length st - 1"
    and "\<forall>j. 1 \<le> j \<and> j < length st - 1 \<longrightarrow>
           fst (snd (hsl (st ! j))) \<le> fst (snd (hsl (st ! primary_address st)))"
proof -
  let ?mid = "[1 ..< length st - 1]"
  let ?f = "\<lambda>i. fst (snd (hsl (st ! i)))"
  have ne: "?mid \<noteq> []" using assms by simp
  have p: "primary_address st = py_max_key ?f ?mid"
    using assms ne by (simp add: primary_address_def Let_def)
  from py_max_key_props(1) [OF ne, of ?f] show "1 \<le> primary_address st"
    "primary_address st < length st - 1" by (simp_all add: p)
  from py_max_key_props(2) [OF ne, of ?f]
  show "\<forall>j. 1 \<le> j \<and> j < length st - 1 \<longrightarrow> ?f j \<le> ?f (primary_address st)"
    by (simp add: p)
qed

lemma set_role_length [simp]: "length (set_role st a ro) = length st"
  by (simp add: set_role_def)

lemma set_role_nth:
  "j < length st \<Longrightarrow> set_role st a ro ! j = (if j = a then (st ! j)\<lparr>role := ro\<rparr> else st ! j)"
  by (simp add: set_role_def nth_list_update)

lemma hsl_set_role: "j < length st \<Longrightarrow> hsl (set_role st a ro ! j) = hsl (st ! j)"
  by (simp add: set_role_nth)

text \<open>The store after a sequence of role assignments to distinct addresses.\<close>

lemma fold_set_role:
  assumes "distinct (map snd cm)" "\<forall>ka\<in>set cm. snd ka < length sc"
  shows "length (fold (\<lambda>ka st. set_role st (snd ka) (fst ka)) cm sc) = length sc
    \<and> (\<forall>ka\<in>set cm. fold (\<lambda>ka st. set_role st (snd ka) (fst ka)) cm sc ! snd ka
          = (sc ! snd ka)\<lparr>role := fst ka\<rparr>)
    \<and> (\<forall>a. a < length sc \<and> a \<notin> snd ` set cm \<longrightarrow>
          fold (\<lambda>ka st. set_role st (snd ka) (fst ka)) cm sc ! a = sc ! a)"
  using assms
proof (induction cm rule: rev_induct)
  case Nil
  then show ?case by simp
next
  case (snoc x xs)
  let ?st = "fold (\<lambda>ka st. set_role st (snd ka) (fst ka)) xs sc"
  have d: "distinct (map snd xs)" "snd x \<notin> snd ` set xs" using snoc.prems(1) by auto
  have b: "\<forall>ka\<in>set xs. snd ka < length sc" "snd x < length sc" using snoc.prems(2) by auto
  from snoc.IH [OF d(1) b(1)] have
    len: "length ?st = length sc" and
    old: "\<forall>ka\<in>set xs. ?st ! snd ka = (sc ! snd ka)\<lparr>role := fst ka\<rparr>" and
    untouched: "\<forall>a. a < length sc \<and> a \<notin> snd ` set xs \<longrightarrow> ?st ! a = sc ! a"
    by blast+
  have step: "fold (\<lambda>ka st. set_role st (snd ka) (fst ka)) (xs @ [x]) sc
      = set_role ?st (snd x) (fst x)" by simp
  have "set_role ?st (snd x) (fst x) ! snd x = (sc ! snd x)\<lparr>role := fst x\<rparr>"
    using b(2) d(2) untouched len by (simp add: set_role_nth)
  moreover have "\<forall>ka\<in>set xs. set_role ?st (snd x) (fst x) ! snd ka
      = (sc ! snd ka)\<lparr>role := fst ka\<rparr>"
  proof
    fix ka assume ka: "ka \<in> set xs"
    then have "snd ka \<noteq> snd x" using d(2) by (metis imageI)
    moreover have "snd ka < length ?st" using ka b(1) len by simp
    ultimately show "set_role ?st (snd x) (fst x) ! snd ka = (sc ! snd ka)\<lparr>role := fst ka\<rparr>"
      using old ka by (simp add: set_role_nth)
  qed
  moreover have "\<forall>a. a < length sc \<and> a \<notin> snd ` set (xs @ [x]) \<longrightarrow>
      set_role ?st (snd x) (fst x) ! a = sc ! a"
    using untouched len by (auto simp: set_role_nth)
  ultimately show ?case using len by (simp only: step) auto
qed

lemma from_colors_assign_shape:
  assumes "3 \<le> length cols"
  shows "\<exists>p rs.
     1 \<le> p \<and> p < length cols - 1
     \<and> (\<forall>j. 1 \<le> j \<and> j < length cols - 1 \<longrightarrow>
            fst (snd (hsl (semantic_colors cols ! j)))
              \<le> fst (snd (hsl (semantic_colors cols ! p))))
     \<and> distinct (map snd ([(BACKGROUND, 0), (TEXT, length cols - 1), (PRIMARY, p)]
                            @ zip [SECONDARY, ACCENT] rs))
     \<and> (\<forall>ka\<in>set ([(BACKGROUND, 0), (TEXT, length cols - 1), (PRIMARY, p)]
                     @ zip [SECONDARY, ACCENT] rs). snd ka < length cols)
     \<and> from_colors_assign cols =
         (([(BACKGROUND, 0), (TEXT, length cols - 1), (PRIMARY, p)]
             @ zip [SECONDARY, ACCENT] rs) @ [(SURFACE, length cols)],
          fold (\<lambda>ka st. set_role st (snd ka) (fst ka))
            ([(BACKGROUND, 0), (TEXT, length cols - 1), (PRIMARY, p)]
               @ zip [SECONDARY, ACCENT] rs) (semantic_colors cols)
          @ [(lighten
                (fold (\<lambda>ka st. set_role st (snd ka) (fst ka))
                   ([(BACKGROUND, 0), (TEXT, length cols - 1), (PRIMARY, p)]
                      @ zip [SECONDARY, ACCENT] rs) (semantic_colors cols) ! 0) 0.05)
              \<lparr>role := SURFACE\<rparr>])"
proof -
  define sc where "sc = semantic_colors cols"
  define n where "n = length cols"
  define s1 where "s1 = assign BACKGROUND 0 ([], sc)"
  define s2 where "s2 = assign TEXT (text_address (snd s1)) s1"
  define p where "p = primary_address (snd s2)"
  define s3 where "s3 = assign PRIMARY p s2"
  define rs where "rs = remaining_addresses s3"
  have len: "length sc = n" by (simp add: sc_def n_def)
  have n3: "3 \<le> n" using assms by (simp add: n_def)
  have s1: "s1 = ([(BACKGROUND, 0)], set_role sc 0 BACKGROUND)"
    by (simp add: s1_def assign_def)
  have "text_address (snd s1) = n - 1"
    using text_address_last [OF assms] by (simp add: s1 set_role_def sc_def n_def)
  then have s2: "s2 = ([(BACKGROUND, 0), (TEXT, n - 1)],
      set_role (set_role sc 0 BACKGROUND) (n - 1) TEXT)"
    by (simp add: s2_def s1 assign_def)
  have len2: "length (snd s2) = n" by (simp add: s2 len)
  have p1: "1 \<le> p" and p2: "p < n - 1"
    using primary_address_props(1,2) [of "snd s2"] n3 by (simp_all add: p_def len2)
  have psat: "\<forall>j. 1 \<le> j \<and> j < n - 1 \<longrightarrow>
      fst (snd (hsl (sc ! j))) \<le> fst (snd (hsl (sc ! p)))"
  proof (intro allI impI)
    fix j assume j: "1 \<le> j \<and> j < n - 1"
    have "fst (snd (hsl (snd s2 ! j))) \<le> fst (snd (hsl (snd s2 ! p)))"
      using primary_address_props(3) [of "snd s2"] n3 j by (simp add: p_def len2)
    moreover have "hsl (snd s2 ! j) = hsl (sc ! j)" "hsl (snd s2 ! p) = hsl (sc ! p)"
    proof -
      have jn: "j < n" "p < n" using j p2 by linarith+
      show "hsl (snd s2 ! j) = hsl (sc ! j)" using jn(1) by (simp add: s2 hsl_set_role len)
      show "hsl (snd s2 ! p) = hsl (sc ! p)" using jn(2) by (simp add: s2 hsl_set_role len)
    qed
    ultimately show "fst (snd (hsl (sc ! j))) \<le> fst (snd (hsl (sc ! p)))" by simp
  qed
  have s3: "s3 = ([(BACKGROUND, 0), (TEXT, n - 1), (PRIMARY, p)],
      set_role (set_role (set_role sc 0 BACKGROUND) (n - 1) TEXT) p PRIMARY)"
    by (simp add: s3_def s2 assign_def)
  have rs_props: "\<forall>i\<in>set rs. i < n \<and> i \<noteq> 0 \<and> i \<noteq> n - 1 \<and> i \<noteq> p" and rs_distinct: "distinct rs"
    using remaining_addresses_props(1) [of _ "fst s3" "snd s3"]
      remaining_addresses_props(2) [of "fst s3" "snd s3"]
    by (auto simp: rs_def s3 len)
  have unfold: "from_colors_assign cols =
      add_surface (if length rs > 1
                   then assign ACCENT (rs ! 1)
                          (if rs \<noteq> [] then assign SECONDARY (rs ! 0) s3 else s3)
                   else (if rs \<noteq> [] then assign SECONDARY (rs ! 0) s3 else s3))"
    by (simp only: from_colors_assign_def Let_def rs_def s3_def p_def s2_def s1_def sc_def)
  let ?base = "[(BACKGROUND, 0), (TEXT, n - 1), (PRIMARY, p)]"
  let ?cm5 = "?base @ zip [SECONDARY, ACCENT] rs"
  let ?f = "\<lambda>ka st. set_role st (snd ka) (fst ka)"
  have final: "from_colors_assign cols =
      (?cm5 @ [(SURFACE, n)], fold ?f ?cm5 sc @ [(lighten (fold ?f ?cm5 sc ! 0) 0.05)\<lparr>role := SURFACE\<rparr>])"
  proof (cases rs)
    case Nil
    then show ?thesis by (simp add: unfold s3 add_surface_def len)
  next
    case (Cons r0 rest)
    note c1 = Cons
    show ?thesis
    proof (cases rest)
      case Nil
      then show ?thesis by (simp add: unfold c1 s3 add_surface_def assign_def len)
    next
      case (Cons r1 rest')
      then show ?thesis by (simp add: unfold c1 s3 add_surface_def assign_def len)
    qed
  qed
  have dist: "distinct (map snd ?cm5)"
  proof -
    have "set (map snd (zip [SECONDARY, ACCENT] rs)) \<subseteq> set rs"
      by (cases rs; cases "tl rs") auto
    moreover have "distinct (map snd (zip [SECONDARY, ACCENT] rs))"
      using rs_distinct by (cases rs; cases "tl rs") auto
    ultimately show ?thesis using rs_props p1 p2 n3 by auto
  qed
  have bound: "\<forall>ka\<in>set ?cm5. snd ka < n"
  proof -
    have "snd ` set (zip [SECONDARY, ACCENT] rs) \<subseteq> set rs"
      by (cases rs; cases "tl rs") auto
    then show ?thesis using rs_props p2 n3 by auto
  qed
  show ?thesis
    using p1 p2 psat dist bound final unfolding n_def sc_def by blast
qed

lemma from_colors_palette:
  assumes "3 \<le> length cols"
  shows "\<exists>p rs.
     1 \<le> p \<and> p < length cols - 1
     \<and> (\<forall>j. 1 \<le> j \<and> j < length cols - 1 \<longrightarrow>
            fst (snd (hsl (semantic_colors cols ! j)))
              \<le> fst (snd (hsl (semantic_colors cols ! p))))
     \<and> from_colors cols si = Inr
         \<lparr> colors =
             (BACKGROUND, (semantic_colors cols ! 0)\<lparr>role := BACKGROUND\<rparr>)
             # (TEXT, (semantic_colors cols ! (length cols - 1))\<lparr>role := TEXT\<rparr>)
             # (PRIMARY, (semantic_colors cols ! p)\<lparr>role := PRIMARY\<rparr>)
             # map (\<lambda>ka. (fst ka, (semantic_colors cols ! snd ka)\<lparr>role := fst ka\<rparr>))
                 (zip [SECONDARY, ACCENT] rs)
             @ [(SURFACE,
                 (lighten ((semantic_colors cols ! 0)\<lparr>role := BACKGROUND\<rparr>) 0.05)
                   \<lparr>role := SURFACE\<rparr>)],
           source_image = si,
           extraction_method = Some ''automatic_assignment'',
           quality_score = None \<rparr>"
proof -
  let ?sc = "semantic_colors cols"
  let ?n = "length cols"
  let ?f = "\<lambda>ka st. set_role st (snd ka) (fst ka)"
  from from_colors_assign_shape [OF assms] obtain p rs where
    p1: "1 \<le> p" and p2: "p < ?n - 1"
    and psat: "\<forall>j. 1 \<le> j \<and> j < ?n - 1 \<longrightarrow>
            fst (snd (hsl (?sc ! j))) \<le> fst (snd (hsl (?sc ! p)))"
    and dist: "distinct (map snd ([(BACKGROUND, 0), (TEXT, ?n - 1), (PRIMARY, p)]
                            @ zip [SECONDARY, ACCENT] rs))"
    and bound: "\<forall>ka\<in>set ([(BACKGROUND, 0), (TEXT, ?n - 1), (PRIMARY, p)]
                     @ zip [SECONDARY, ACCENT] rs). snd ka < ?n"
    and shape: "from_colors_assign cols =
         (([(BACKGROUND, 0), (TEXT, ?n - 1), (PRIMARY, p)]
             @ zip [SECONDARY, ACCENT] rs) @ [(SURFACE, ?n)],
          fold ?f ([(BACKGROUND, 0), (TEXT, ?n - 1), (PRIMARY, p)]
               @ zip [SECONDARY, ACCENT] rs) ?sc
          @ [(lighten
                (fold ?f ([(BACKGROUND, 0), (TEXT, ?n - 1), (PRIMARY, p)]
                      @ zip [SECONDARY, ACCENT] rs) ?sc ! 0) 0.05)
              \<lparr>role := SURFACE\<rparr>])"
    by blast
  define cm5 where "cm5 = [(BACKGROUND, 0), (TEXT, ?n - 1), (PRIMARY, p)]
                            @ zip [SECONDARY, ACCENT] rs"
  define st5 where "st5 = fold ?f cm5 ?sc"
  have bound': "\<forall>ka\<in>set cm5. snd ka < length ?sc" using bound by (simp add: cm5_def)
  have dist': "distinct (map snd cm5)" using dist by (simp add: cm5_def)
  from fold_set_role [OF dist' bound'] have
    len5: "length st5 = ?n" and
    at: "\<forall>ka\<in>set cm5. st5 ! snd ka = (?sc ! snd ka)\<lparr>role := fst ka\<rparr>"
    by (simp_all add: st5_def)
  have "(BACKGROUND, 0) \<in> set cm5" by (simp add: cm5_def)
  with at have at0: "st5 ! 0 = (?sc ! 0)\<lparr>role := BACKGROUND\<rparr>" by fastforce
  have shape': "from_colors_assign cols =
      (cm5 @ [(SURFACE, ?n)], st5 @ [(lighten (st5 ! 0) 0.05)\<lparr>role := SURFACE\<rparr>])"
    using shape by (simp only: cm5_def st5_def)
  have lookups: "map (\<lambda>ka. (fst ka, (st5 @ [x]) ! snd ka)) cm5
      = map (\<lambda>ka. (fst ka, (?sc ! snd ka)\<lparr>role := fst ka\<rparr>)) cm5" for x
  proof (rule map_cong [OF refl])
    fix ka assume ka: "ka \<in> set cm5"
    then have "snd ka < length st5" using bound' len5 by simp
    then have "(st5 @ [x]) ! snd ka = st5 ! snd ka" by (simp add: nth_append)
    with at ka show "(fst ka, (st5 @ [x]) ! snd ka) = (fst ka, (?sc ! snd ka)\<lparr>role := fst ka\<rparr>)"
      by simp
  qed
  have last_entry: "(st5 @ [x]) ! ?n = x" for x
    using len5 by (simp add: nth_append)
  have keys: "{PRIMARY, BACKGROUND, TEXT} - set (map fst (cm5 @ [(SURFACE, ?n)])) = {}"
    by (auto simp: cm5_def)
  have "from_colors cols si = Inr
         \<lparr> colors = map (\<lambda>ka. (fst ka, (?sc ! snd ka)\<lparr>role := fst ka\<rparr>)) cm5
             @ [(SURFACE, (lighten ((?sc ! 0)\<lparr>role := BACKGROUND\<rparr>) 0.05)\<lparr>role := SURFACE\<rparr>)],
           source_image = si,
           extraction_method = Some ''automatic_assignment'',
           quality_score = None \<rparr>"
    using assms keys
    by (simp add: from_colors_def shape' new_ColorPalette_def Let_def lookups last_entry at0
        comp_def)
  then show ?thesis using p1 p2 psat unfolding cm5_def by auto
qed

lemma zip2_cases:
  "zip [k1, k2] rs = [] \<or> (\<exists>r0. zip [k1, k2] rs = [(k1, r0)])
     \<or> (\<exists>r0 r1. zip [k1, k2] rs = [(k1, r0), (k2, r1)])"
  by (cases rs; cases "tl rs") auto

lemma from_colors_short: "length cols < 3 \<Longrightarrow> from_colors cols si = Inl ValueError"
  by (simp add: from_colors_def)

lemma from_colors_Inr_length: "from_colors cols si = Inr pal \<Longrightarrow> 3 \<le> length cols"
  by (cases "length cols < 3") (simp_all add: from_colors_def)

lemma from_colors_lookups:
  assumes "3 \<le> length cols"
  shows "\<exists>pal p.
     from_colors cols si = Inr pal
     \<and> 1 \<le> p \<and> p < length cols - 1
     \<and> (\<forall>j. 1 \<le> j \<and> j < length cols - 1 \<longrightarrow>
            fst (snd (hsl (semantic_colors cols ! j)))
              \<le> fst (snd (hsl (semantic_colors cols ! p))))
     \<and> get_color pal BACKGROUND = Some ((semantic_colors cols ! 0)\<lparr>role := BACKGROUND\<rparr>)
     \<and> get_color pal TEXT = Some ((semantic_colors cols ! (length cols - 1))\<lparr>role := TEXT\<rparr>)
     \<and> get_color pal PRIMARY = Some ((semantic_colors cols ! p)\<lparr>role := PRIMARY\<rparr>)
     \<and> get_color pal SURFACE
         = Some ((lighten ((semantic_colors cols ! 0)\<lparr>role := BACKGROUND\<rparr>) 0.05)
                  \<lparr>role := SURFACE\<rparr>)
     \<and> (\<forall>kc\<in>set (colors pal). role (snd kc) = fst kc)"
proof -
  let ?sc = "semantic_colors cols"
  from from_colors_palette [OF assms, of si] obtain p rs where
    p: "1 \<le> p" "p < length cols - 1"
    and psat: "\<forall>j. 1 \<le> j \<and> j < length cols - 1 \<longrightarrow>
            fst (snd (hsl (?sc ! j))) \<le> fst (snd (hsl (?sc ! p)))"
    and pal: "from_colors cols si = Inr
         \<lparr> colors =
             (BACKGROUND, (?sc ! 0)\<lparr>role := BACKGROUND\<rparr>)
             # (TEXT, (?sc ! (length cols - 1))\<lparr>role := TEXT\<rparr>)
             # (PRIMARY, (?sc ! p)\<lparr>role := PRIMARY\<rparr>)
             # map (\<lambda>ka. (fst ka, (?sc ! snd ka)\<lparr>role := fst ka\<rparr>))
                 (zip [SECONDARY, ACCENT] rs)
             @ [(SURFACE, (lighten ((?sc ! 0)\<lparr>role := BACKGROUND\<rparr>) 0.05)\<lparr>role := SURFACE\<rparr>)],
           source_image = si,
           extraction_method = Some ''automatic_assignment'',
           quality_score = None \<rparr>"
    by blast
  define pl where "pl =
         \<lparr> colors =
             (BACKGROUND, (?sc ! 0)\<lparr>role := BACKGROUND\<rparr>)
             # (TEXT, (?sc ! (length cols - 1))\<lparr>role := TEXT\<rparr>)
             # (PRIMARY, (?sc ! p)\<lparr>role := PRIMARY\<rparr>)
             # map (\<lambda>ka. (fst ka, (?sc ! snd ka)\<lparr>role := fst ka\<rparr>))
                 (zip [SECONDARY, ACCENT] rs)
             @ [(SURFACE, (lighten ((?sc ! 0)\<lparr>role := BACKGROUND\<rparr>) 0.05)\<lparr>role := SURFACE\<rparr>)],
           source_image = si,
           extraction_method = Some ''automatic_assignment'',
           quality_score = None \<rparr>"
  have res: "from_colors cols si = Inr pl" using pal by (simp only: pl_def)
  have bg: "get_color pl BACKGROUND = Some ((?sc ! 0)\<lparr>role := BACKGROUND\<rparr>)"
    and tx: "get_color pl TEXT = Some ((?sc ! (length cols - 1))\<lparr>role := TEXT\<rparr>)"
    and pr: "get_color pl PRIMARY = Some ((?sc ! p)\<lparr>role := PRIMARY\<rparr>)"
    by (simp_all add: get_color_def pl_def)
  have su: "get_color pl SURFACE
      = Some ((lighten ((?sc ! 0)\<lparr>role := BACKGROUND\<rparr>) 0.05)\<lparr>role := SURFACE\<rparr>)"
    using zip2_cases [of SECONDARY ACCENT rs]
    by (auto simp: get_color_def pl_def)
  have roles: "\<forall>kc\<in>set (colors pl). role (snd kc) = fst kc"
    using zip2_cases [of SECONDARY ACCENT rs]
    by (auto simp: pl_def)
  from res p psat bg tx pr su roles show ?thesis by blast
qed

lemma new_ColorPalette_required:
  assumes "new_ColorPalette cs si em qs = Inr pal"
  shows "colors pal = cs" "BACKGROUND \<in> fst ` set cs" "TEXT \<in> fst ` set cs"
    "PRIMARY \<in> fst ` set cs"
proof -
  have ok: "{PRIMARY, BACKGROUND, TEXT} - set (map fst cs) = {}"
    using assms by (cases "{PRIMARY, BACKGROUND, TEXT} - set (map fst cs) = {}")
      (simp_all add: new_ColorPalette_def Let_def)
  then show "BACKGROUND \<in> fst ` set cs" "TEXT \<in> fst ` set cs" "PRIMARY \<in> fst ` set cs"
    by auto
  show "colors pal = cs" using assms ok by (auto simp: new_ColorPalette_def Let_def)
qed

lemma get_color_present: "k \<in> fst ` set (colors pal) \<Longrightarrow> \<exists>c. get_color pal k = Some c"
  by (simp add: get_color_def) (metis domIff dom_map_of_conv_image_fst not_Some_eq)

lemma new_ColorPalette_missing:
  assumes "BACKGROUND \<notin> fst ` set cs \<or> TEXT \<notin> fst ` set cs \<or> PRIMARY \<notin> fst ` set cs"
  shows "new_ColorPalette cs si em qs = Inl ValueError"
proof -
  have "{PRIMARY, BACKGROUND, TEXT} - set (map fst cs) \<noteq> {}" using assms by auto
  then show ?thesis by (simp add: new_ColorPalette_def Let_def)
qed

lemma new_ColorPalette_ok:
  assumes "BACKGROUND \<in> fst ` set cs" "TEXT \<in> fst ` set cs" "PRIMARY \<in> fst ` set cs"
  shows "new_ColorPalette cs si em qs
     = Inr \<lparr> colors = cs, source_image = si, extraction_method = em, quality_score = qs \<rparr>"
proof -
  have "{PRIMARY, BACKGROUND, TEXT} - set (map fst cs) = {}" using assms by auto
  then show ?thesis by (simp add: new_ColorPalette_def Let_def)
qed

lemma semantic_colors_mset:
  "mset (semantic_colors cols) = mset (map (\<lambda>(x, y, z). from_rgb x y z PRIMARY) cols)"
  by (simp add: semantic_colors_def)

lemma semantic_colors_extremes:
  assumes "3 \<le> length cols" "c \<in> set (semantic_colors cols)"
  shows "luminance (semantic_colors cols ! 0) \<le> luminance c"
    and "luminance c \<le> luminance (semantic_colors cols ! (length cols - 1))"
    and "3 \<le> contrast_ratio c (semantic_colors cols ! 0) \<Longrightarrow>
           3 \<le> contrast_ratio (semantic_colors cols ! (length cols - 1)) (semantic_colors cols ! 0)"
proof -
  let ?sc = "semantic_colors cols"
  from assms(2) obtain j where j: "j < length cols" "c = ?sc ! j"
    by (auto simp: in_set_conv_nth)
  have last: "length cols - 1 < length cols" using assms(1) by simp
  show lo: "luminance (?sc ! 0) \<le> luminance c"
    using semantic_colors_mono [of 0 j cols] j by simp
  show hi: "luminance c \<le> luminance (?sc ! (length cols - 1))"
    using semantic_colors_mono [of j "length cols - 1" cols] j last by simp
  have "0 < length cols" using assms(1) by linarith
  then have nn: "0 \<le> luminance (?sc ! 0)"
    by (rule semantic_colors_luminance_nonneg)
  assume "3 \<le> contrast_ratio c (?sc ! 0)"
  also have "contrast_ratio c (?sc ! 0) \<le> contrast_ratio (?sc ! (length cols - 1)) (?sc ! 0)"
    by (rule contrast_ratio_mono [OF nn lo hi])
  finally show "3 \<le> contrast_ratio (?sc ! (length cols - 1)) (?sc ! 0)" .
qed

text \<open>
  Claim C2. For every list of at least three RGB colours, \<open>from_colors\<close> returns a palette
  whose roles are assigned from the list \<open>semantic_colors\<close>, a permutation of the input
  colours sorted by relative luminance. BACKGROUND is its first element, which has the
  lowest luminance. TEXT is its last element, which has the highest luminance, and whose
  contrast ratio against the background is at least 3.0 whenever the contrast ratio of any
  colour of the list is; when no colour reaches 3.0 it is still the last, lightest element.
  PRIMARY is an element at a position \<open>p\<close> strictly between the first and the last, and no
  element strictly between the first and the last has a greater HSL saturation. Each of the
  three is stored with its role attribute set to the role.
\<close>

theorem C2_role_assignment:
  assumes "3 \<le> length cols"
  shows "\<exists>pal bgc txt prim p.
     from_colors cols si = Inr pal
     \<and> sorted (map luminance (semantic_colors cols))
     \<and> mset (semantic_colors cols) = mset (map (\<lambda>(x, y, z). from_rgb x y z PRIMARY) cols)
     \<and> get_color pal BACKGROUND = Some bgc
     \<and> bgc = (semantic_colors cols ! 0)\<lparr>role := BACKGROUND\<rparr>
     \<and> (\<forall>c\<in>set (semantic_colors cols). luminance bgc \<le> luminance c)
     \<and> get_color pal TEXT = Some txt
     \<and> txt = (semantic_colors cols ! (length cols - 1))\<lparr>role := TEXT\<rparr>
     \<and> (\<forall>c\<in>set (semantic_colors cols). luminance c \<le> luminance txt)
     \<and> ((\<exists>c\<in>set (semantic_colors cols). 3 \<le> contrast_ratio c bgc)
            \<longrightarrow> 3 \<le> contrast_ratio txt bgc)
     \<and> get_color pal PRIMARY = Some prim
     \<and> prim = (semantic_colors cols ! p)\<lparr>role := PRIMARY\<rparr>
     \<and> 1 \<le> p \<and> p < length cols - 1
     \<and> (\<forall>j. 1 \<le> j \<and> j < length cols - 1 \<longrightarrow>
            fst (snd (hsl (semantic_colors cols ! j))) \<le> fst (snd (hsl prim)))"
proof -
  let ?sc = "semantic_colors cols"
  from from_colors_lookups [OF assms, of si] obtain pal p where
    res: "from_colors cols si = Inr pal"
    and p: "1 \<le> p" "p < length cols - 1"
    and psat: "\<forall>j. 1 \<le> j \<and> j < length cols - 1 \<longrightarrow>
            fst (snd (hsl (?sc ! j))) \<le> fst (snd (hsl (?sc ! p)))"
    and bg: "get_color pal BACKGROUND = Some ((?sc ! 0)\<lparr>role := BACKGROUND\<rparr>)"
    and tx: "get_color pal TEXT = Some ((?sc ! (length cols - 1))\<lparr>role := TEXT\<rparr>)"
    and pr: "get_color pal PRIMARY = Some ((?sc ! p)\<lparr>role := PRIMARY\<rparr>)"
    by blast
  have lo: "\<forall>c\<in>set ?sc. luminance ((?sc ! 0)\<lparr>role := BACKGROUND\<rparr>) \<le> luminance c"
    using semantic_colors_extremes(1) [OF assms] by simp
  have hi: "\<forall>c\<in>set ?sc. luminance c \<le> luminance ((?sc ! (length cols - 1))\<lparr>role := TEXT\<rparr>)"
    using semantic_colors_extremes(2) [OF assms] by simp
  have ct: "(\<exists>c\<in>set ?sc. 3 \<le> contrast_ratio c ((?sc ! 0)\<lparr>role := BACKGROUND\<rparr>))
      \<longrightarrow> 3 \<le> contrast_ratio ((?sc ! (length cols - 1))\<lparr>role := TEXT\<rparr>)
                 ((?sc ! 0)\<lparr>role := BACKGROUND\<rparr>)"
    using semantic_colors_extremes(3) [OF assms] by auto
  have psat': "\<forall>j. 1 \<le> j \<and> j < length cols - 1 \<longrightarrow>
            fst (snd (hsl (?sc ! j))) \<le> fst (snd (hsl ((?sc ! p)\<lparr>role := PRIMARY\<rparr>)))"
    using psat by simp
  from res semantic_colors_sorted [of cols] semantic_colors_mset [of cols] bg lo tx hi ct pr p
    psat'
  show ?thesis by blast
qed

theorem C2_role_assignment_witness:
  "3 \<le> length [(0, 0, 0), (255, 255, 255), (255 :: int, 0 :: int, 0 :: int)]
   \<and> (\<exists>pal. from_colors [(0, 0, 0), (255, 255, 255), (255, 0, 0)] None = Inr pal
        \<and> get_color pal PRIMARY
            = Some ((semantic_colors [(0, 0, 0), (255, 255, 255), (255, 0, 0)] ! 1)
                      \<lparr>role := PRIMARY\<rparr>))"
proof -
  have len: "3 \<le> length [(0, 0, 0), (255, 255, 255), (255 :: int, 0 :: int, 0 :: int)]" by simp
  from C2_role_assignment [OF len, of None]
  obtain pal prim p where
    res: "from_colors [(0, 0, 0), (255, 255, 255), (255, 0, 0)] None = Inr pal"
    and pr: "get_color pal PRIMARY = Some prim"
    and prim: "prim = (semantic_colors [(0, 0, 0), (255, 255, 255), (255, 0, 0)] ! p)
                 \<lparr>role := PRIMARY\<rparr>"
    and p: "1 \<le> p" "p < length [(0 :: int, 0 :: int, 0 :: int), (255, 255, 255), (255, 0, 0)] - 1"
    by blast
  from p have "p = 1" by simp
  with res pr prim len show ?thesis by blast
qed

text \<open>
  Claim C5. A palette that the constructor of \<open>ColorPalette\<close> returns has the colours it
  was given, among them one for each of BACKGROUND, TEXT and PRIMARY; the constructor
  raises \<open>ValueError\<close> when one of the three roles is missing, and succeeds otherwise.
  For a list of at least three colours \<open>from_colors\<close> returns a palette that has the
  three roles and also SURFACE, whose colour is the background colour of the palette
  lightened by 0.05 with the role SURFACE; for a list of fewer than three colours
  \<open>from_colors\<close> raises \<open>ValueError\<close>.
\<close>

theorem C5_required_roles:
  "(new_ColorPalette cs si em qs = Inr pal \<longrightarrow>
      colors pal = cs
      \<and> (\<exists>c1 c2 c3. get_color pal BACKGROUND = Some c1 \<and> get_color pal TEXT = Some c2
             \<and> get_color pal PRIMARY = Some c3))
   \<and> (BACKGROUND \<notin> fst ` set cs \<or> TEXT \<notin> fst ` set cs \<or> PRIMARY \<notin> fst ` set cs \<longrightarrow>
        new_ColorPalette cs si em qs = Inl ValueError)
   \<and> (BACKGROUND \<in> fst ` set cs \<and> TEXT \<in> fst ` set cs \<and> PRIMARY \<in> fst ` set cs \<longrightarrow>
        new_ColorPalette cs si em qs
          = Inr \<lparr> colors = cs, source_image = si, extraction_method = em, quality_score = qs \<rparr>)
   \<and> (3 \<le> length cols \<longrightarrow>
        (\<exists>pal' bgc c2 c3. from_colors cols si = Inr pal'
            \<and> get_color pal' BACKGROUND = Some bgc
            \<and> get_color pal' TEXT = Some c2
            \<and> get_color pal' PRIMARY = Some c3
            \<and> get_color pal' SURFACE = Some ((lighten bgc 0.05)\<lparr>role := SURFACE\<rparr>)))
   \<and> (length cols < 3 \<longrightarrow> from_colors cols si = Inl ValueError)"
proof -
  have part1: "new_ColorPalette cs si em qs = Inr pal \<longrightarrow>
      colors pal = cs
      \<and> (\<exists>c1 c2 c3. get_color pal BACKGROUND = Some c1 \<and> get_color pal TEXT = Some c2
             \<and> get_color pal PRIMARY = Some c3)"
  proof
    assume a: "new_ColorPalette cs si em qs = Inr pal"
    note req = new_ColorPalette_required [OF a]
    from req have "BACKGROUND \<in> fst ` set (colors pal)" "TEXT \<in> fst ` set (colors pal)"
      "PRIMARY \<in> fst ` set (colors pal)" by simp_all
    then show "colors pal = cs
      \<and> (\<exists>c1 c2 c3. get_color pal BACKGROUND = Some c1 \<and> get_color pal TEXT = Some c2
             \<and> get_color pal PRIMARY = Some c3)"
      using req(1) get_color_present [of BACKGROUND pal] get_color_present [of TEXT pal]
        get_color_present [of PRIMARY pal] by blast
  qed
  have part2: "BACKGROUND \<notin> fst ` set cs \<or> TEXT \<notin> fst ` set cs \<or> PRIMARY \<notin> fst ` set cs \<longrightarrow>
        new_ColorPalette cs si em qs = Inl ValueError"
    using new_ColorPalette_missing [of cs si em qs] by blast
  have part3: "BACKGROUND \<in> fst ` set cs \<and> TEXT \<in> fst ` set cs \<and> PRIMARY \<in> fst ` set cs \<longrightarrow>
        new_ColorPalette cs si em qs
          = Inr \<lparr> colors = cs, source_image = si, extraction_method = em, quality_score = qs \<rparr>"
    using new_ColorPalette_ok [of cs si em qs] by blast
  have part4: "3 \<le> length cols \<longrightarrow>
        (\<exists>pal' bgc c2 c3. from_colors cols si = Inr pal'
            \<and> get_color pal' BACKGROUND = Some bgc
            \<and> get_color pal' TEXT = Some c2
            \<and> get_color pal' PRIMARY = Some c3
            \<and> get_color pal' SURFACE = Some ((lighten bgc 0.05)\<lparr>role := SURFACE\<rparr>))"
    using from_colors_lookups [of cols si] by blast
  have part5: "length cols < 3 \<longrightarrow> from_colors cols si = Inl ValueError"
    using from_colors_short [of cols si] by blast
  from part1 part2 part3 part4 part5 show ?thesis by (intro conjI)
qed

theorem C5_required_roles_witness:
  "new_ColorPalette [(BACKGROUND, from_rgb 0 0 0 BACKGROUND), (TEXT, from_rgb 255 255 255 TEXT),
       (PRIMARY, from_rgb 255 0 0 PRIMARY)] None None None
     = Inr \<lparr> colors = [(BACKGROUND, from_rgb 0 0 0 BACKGROUND),
                        (TEXT, from_rgb 255 255 255 TEXT), (PRIMARY, from_rgb 255 0 0 PRIMARY)],
              source_image = None, extraction_method = None, quality_score = None \<rparr>
   \<and> (\<exists>c1 c2 c3.
         get_color \<lparr> colors = [(BACKGROUND, from_rgb 0 0 0 BACKGROUND),
                        (TEXT, from_rgb 255 255 255 TEXT), (PRIMARY, from_rgb 255 0 0 PRIMARY)],
              source_image = None, extraction_method = None, quality_score = None \<rparr>
           BACKGROUND = Some c1
         \<and> get_color \<lparr> colors = [(BACKGROUND, from_rgb 0 0 0 BACKGROUND),
                        (TEXT, from_rgb 255 255 255 TEXT), (PRIMARY, from_rgb 255 0 0 PRIMARY)],
              source_image = None, extraction_method = None, quality_score = None \<rparr>
           TEXT = Some c2
         \<and> get_color \<lparr> colors = [(BACKGROUND, from_rgb 0 0 0 BACKGROUND),
                        (TEXT, from_rgb 255 255 255 TEXT), (PRIMARY, from_rgb 255 0 0 PRIMARY)],
              source_image = None, extraction_method = None, quality_score = None \<rparr>
           PRIMARY = Some c3)
   \<and> 3 \<le> length [(0, 0, 0), (255, 255, 255), (255 :: int, 0 :: int, 0 :: int)]
   \<and> (\<exists>pal' bgc. from_colors [(0, 0, 0), (255, 255, 255), (255, 0, 0)] None = Inr pal'
        \<and> get_color pal' BACKGROUND = Some bgc
        \<and> get_color pal' SURFACE = Some ((lighten bgc 0.05)\<lparr>role := SURFACE\<rparr>))"
proof -
  let ?cs = "[(BACKGROUND, from_rgb 0 0 0 BACKGROUND), (TEXT, from_rgb 255 255 255 TEXT),
       (PRIMARY, from_rgb 255 0 0 PRIMARY)]"
  let ?pal = "\<lparr> colors = ?cs, source_image = None, extraction_method = None,
      quality_score = None \<rparr>"
  note inst = C5_required_roles [of ?cs None None None ?pal
      "[(0, 0, 0), (255, 255, 255), (255, 0, 0)]"]
  have keys: "BACKGROUND \<in> fst ` set ?cs \<and> TEXT \<in> fst ` set ?cs \<and> PRIMARY \<in> fst ` set ?cs"
    by simp
  have len: "3 \<le> length [(0, 0, 0), (255, 255, 255), (255 :: int, 0 :: int, 0 :: int)]" by simp
  from inst keys have new: "new_ColorPalette ?cs None None None = Inr ?pal" by blast
  with inst have "\<exists>c1 c2 c3. get_color ?pal BACKGROUND = Some c1 \<and> get_color ?pal TEXT = Some c2
      \<and> get_color ?pal PRIMARY = Some c3" by blast
  moreover from inst len have "\<exists>pal' bgc.
      from_colors [(0, 0, 0), (255, 255, 255), (255, 0, 0)] None = Inr pal'
        \<and> get_color pal' BACKGROUND = Some bgc
        \<and> get_color pal' SURFACE = Some ((lighten bgc 0.05)\<lparr>role := SURFACE\<rparr>)" by blast
  ultimately show ?thesis using new len by blast
qed

text \<open>
  Claim C9. In every palette that \<open>from_colors\<close> returns, every entry of the \<open>colors\<close>
  mapping holds, under its role key, a colour whose \<open>role\<close> attribute is that key; so a
  lookup of a role that is present yields a colour with that role. (\<open>from_colors\<close> does
  return a palette for every list of at least three colours.)
\<close>

theorem C9_role_consistency:
  "(from_colors cols si = Inr pal \<longrightarrow>
      (\<forall>kc\<in>set (colors pal). role (snd kc) = fst kc)
      \<and> (\<forall>k c. get_color pal k = Some c \<longrightarrow> role c = k))
   \<and> (3 \<le> length cols \<longrightarrow> (\<exists>pal'. from_colors cols si = Inr pal'))"
proof -
  have part1: "from_colors cols si = Inr pal \<longrightarrow>
      (\<forall>kc\<in>set (colors pal). role (snd kc) = fst kc)
      \<and> (\<forall>k c. get_color pal k = Some c \<longrightarrow> role c = k)"
  proof
    assume a: "from_colors cols si = Inr pal"
    then have "3 \<le> length cols" by (rule from_colors_Inr_length)
    from from_colors_lookups [OF this, of si] a
    have roles: "\<forall>kc\<in>set (colors pal). role (snd kc) = fst kc" by auto
    have "\<forall>k c. get_color pal k = Some c \<longrightarrow> role c = k"
    proof (intro allI impI)
      fix k c assume "get_color pal k = Some c"
      then have "(k, c) \<in> set (colors pal)" by (simp add: get_color_def map_of_SomeD)
      with roles show "role c = k" by fastforce
    qed
    with roles show "(\<forall>kc\<in>set (colors pal). role (snd kc) = fst kc)
      \<and> (\<forall>k c. get_color pal k = Some c \<longrightarrow> role c = k)" by simp
  qed
  have part2: "3 \<le> length cols \<longrightarrow> (\<exists>pal'. from_colors cols si = Inr pal')"
    using from_colors_lookups [of cols si] by blast
  from part1 part2 show ?thesis by simp
qed

theorem C9_role_consistency_witness:
  "3 \<le> length [(0, 0, 0), (255, 255, 255), (255 :: int, 0 :: int, 0 :: int)]
   \<and> (\<exists>pal c. from_colors [(0, 0, 0), (255, 255, 255), (255, 0, 0)] None = Inr pal
        \<and> get_color pal TEXT = Some c \<and> role c = TEXT)"
proof -
  have len: "3 \<le> length [(0, 0, 0), (255, 255, 255), (255 :: int, 0 :: int, 0 :: int)]" by simp
  from from_colors_lookups [OF len, of None] obtain pal c where
    res: "from_colors [(0, 0, 0), (255, 255, 255), (255, 0, 0)] None = Inr pal"
    and tx: "get_color pal TEXT = Some c" by blast
  from C9_role_consistency [of "[(0, 0, 0), (255, 255, 255), (255, 0, 0)]" None pal] res tx
  have "role c = TEXT" by blast
  with len res tx show ?thesis by blast
qed

lemma adaptive_results_set:
  "set (adaptive_results L img image_path)
     = {res. \<exists>mn\<in>set methods_to_try. adaptive_try L img image_path mn = Inr res}"
  by (auto simp: adaptive_results_def methods_to_try_def split: sum.splits)

lemma extract_adaptive_all_fail:
  assumes "\<forall>mn\<in>set methods_to_try. \<exists>e. adaptive_try L img image_path mn = Inl e"
  shows "extract_adaptive L img image_path = extract_median_cut L img 5"
proof -
  have "set (adaptive_results L img image_path) = {}"
    using assms by (auto simp: adaptive_results_set)
  then show ?thesis by (simp add: extract_adaptive_def)
qed

lemma extract_adaptive_some_success:
  assumes "\<exists>mn\<in>set methods_to_try. \<exists>res. adaptive_try L img image_path mn = Inr res"
  shows "\<exists>mn\<in>set methods_to_try. \<exists>res. adaptive_try L img image_path mn = Inr res
           \<and> extract_adaptive L img image_path = Inr (fst res)"
proof -
  let ?rs = "adaptive_results L img image_path"
  have ne: "?rs \<noteq> []" using assms adaptive_results_set [of L img image_path] by auto
  from py_max_key_props(1) [OF ne, of "\<lambda>x. fst (snd x)"]
  have "py_max_key (\<lambda>x. fst (snd x)) ?rs \<in> set ?rs" .
  then obtain mn where "mn \<in> set methods_to_try"
    "adaptive_try L img image_path mn = Inr (py_max_key (\<lambda>x. fst (snd x)) ?rs)"
    by (auto simp: adaptive_results_set)
  moreover have "extract_adaptive L img image_path
      = Inr (fst (py_max_key (\<lambda>x. fst (snd x)) ?rs))"
    using ne by (simp add: extract_adaptive_def)
  ultimately show ?thesis by blast
qed

text \<open>
  Claim C4. When the ColorThief attempt of \<open>_extract_colorthief\<close> returns colours, they
  are the result. When it raises, the image is opened again from the same path and the
  result is that of median cut on that image with the same colour count (and the
  exception of the opening, should the opening raise). In \<open>_extract_adaptive\<close>, when each
  of the three attempts fails, the result is that of median cut on the image with 5
  colours, not the error of an attempt; when an attempt succeeds, the result is the
  colour list of a successful attempt.
\<close>

theorem C4_fallbacks:
  "(colorthief_try L image_path num_colors = Inr cols \<longrightarrow>
      extract_colorthief L image_path num_colors = Inr cols)
   \<and> (colorthief_try L image_path num_colors = Inl e \<and> image_open_rgb L image_path = Inr img' \<longrightarrow>
        extract_colorthief L image_path num_colors = extract_median_cut L img' num_colors)
   \<and> (colorthief_try L image_path num_colors = Inl e \<and> image_open_rgb L image_path = Inl e' \<longrightarrow>
        extract_colorthief L image_path num_colors = Inl e')
   \<and> ((\<forall>mn\<in>set methods_to_try. \<exists>e''. adaptive_try L img image_path mn = Inl e'') \<longrightarrow>
        extract_adaptive L img image_path = extract_median_cut L img 5)
   \<and> ((\<exists>mn\<in>set methods_to_try. \<exists>res. adaptive_try L img image_path mn = Inr res) \<longrightarrow>
        (\<exists>mn\<in>set methods_to_try. \<exists>res. adaptive_try L img image_path mn = Inr res
            \<and> extract_adaptive L img image_path = Inr (fst res)))"
proof -
  have part1: "colorthief_try L image_path num_colors = Inr cols \<longrightarrow>
      extract_colorthief L image_path num_colors = Inr cols"
    by (simp add: extract_colorthief_def)
  have part2: "colorthief_try L image_path num_colors = Inl e \<and> image_open_rgb L image_path = Inr img' \<longrightarrow>
        extract_colorthief L image_path num_colors = extract_median_cut L img' num_colors"
    by (simp add: extract_colorthief_def)
  have part3: "colorthief_try L image_path num_colors = Inl e \<and> image_open_rgb L image_path = Inl e' \<longrightarrow>
        extract_colorthief L image_path num_colors = Inl e'"
    by (simp add: extract_colorthief_def)
  have part4: "(\<forall>mn\<in>set methods_to_try. \<exists>e''. adaptive_try L img image_path mn = Inl e'') \<longrightarrow>
        extract_adaptive L img image_path = extract_median_cut L img 5"
    using extract_adaptive_all_fail [of L img image_path] by blast
  have part5: "(\<exists>mn\<in>set methods_to_try. \<exists>res. adaptive_try L img image_path mn = Inr res) \<longrightarrow>
        (\<exists>mn\<in>set methods_to_try. \<exists>res. adaptive_try L img image_path mn = Inr res
            \<and> extract_adaptive L img image_path = Inr (fst res))"
    using extract_adaptive_some_success [of L img image_path] by blast
  from part1 part2 part3 part4 part5 show ?thesis by (intro conjI)
qed

theorem C4_fallbacks_witness:
  "colorthief_try
     \<lparr> extract_kmeans_lab = (\<lambda>im n. Inl LibraryError),
       extract_median_cut = (\<lambda>im n. if im = ''thumbnail'' \<and> n = 5
                                      then Inr [(1, 2, 3), (4, 5, 6), (7, 8, 9)]
                                      else Inl LibraryError),
       colorthief_get_color = (\<lambda>p. Inl LibraryError),
       colorthief_get_palette = (\<lambda>p n. Inl LibraryError),
       image_open_rgb = (\<lambda>p. Inr ''original''),
       cspace_convert = (\<lambda>x. x) \<rparr> ''a.png'' 5 = Inl LibraryError
   \<and> extract_colorthief
     \<lparr> extract_kmeans_lab = (\<lambda>im n. Inl LibraryError),
       extract_median_cut = (\<lambda>im n. if im = ''thumbnail'' \<and> n = 5
                                      then Inr [(1, 2, 3), (4, 5, 6), (7, 8, 9)]
                                      else Inl LibraryError),
       colorthief_get_color = (\<lambda>p. Inl LibraryError),
       colorthief_get_palette = (\<lambda>p n. Inl LibraryError),
       image_open_rgb = (\<lambda>p. Inr ''original''),
       cspace_convert = (\<lambda>x. x) \<rparr> ''a.png'' 5 = Inl LibraryError
   \<and> extract_adaptive
     \<lparr> extract_kmeans_lab = (\<lambda>im n. Inl LibraryError),
       extract_median_cut = (\<lambda>im n. if im = ''thumbnail'' \<and> n = 5
                                      then Inr [(1, 2, 3), (4, 5, 6), (7, 8, 9)]
                                      else Inl LibraryError),
       colorthief_get_color = (\<lambda>p. Inl LibraryError),
       colorthief_get_palette = (\<lambda>p n. Inl LibraryError),
       image_open_rgb = (\<lambda>p. Inr ''original''),
       cspace_convert = (\<lambda>x. x) \<rparr> ''thumbnail'' ''a.png'' = Inr [(1, 2, 3), (4, 5, 6), (7, 8, 9)]"
proof -
  let ?L = "\<lparr> extract_kmeans_lab = (\<lambda>im n. Inl LibraryError),
       extract_median_cut = (\<lambda>im n. if im = ''thumbnail'' \<and> n = 5
                                      then Inr [(1, 2, 3), (4, 5, 6), (7, 8, 9)]
                                      else Inl LibraryError),
       colorthief_get_color = (\<lambda>p. Inl LibraryError),
       colorthief_get_palette = (\<lambda>p n. Inl LibraryError),
       image_open_rgb = (\<lambda>p. Inr ''original''),
       cspace_convert = (\<lambda>x. x) \<rparr>"
  note inst = C4_fallbacks [of ?L "''a.png''" 5 _ LibraryError "''original''" _ "''thumbnail''"]
  have tried: "colorthief_try ?L ''a.png'' 5 = Inl LibraryError"
    by (simp add: colorthief_try_def)
  have opened: "image_open_rgb ?L ''a.png'' = Inr ''original''" by simp
  from inst tried opened
  have ct: "extract_colorthief ?L ''a.png'' 5 = extract_median_cut ?L ''original'' 5" by blast
  have fails: "\<forall>mn\<in>set methods_to_try. \<exists>e''. adaptive_try ?L ''thumbnail'' ''a.png'' mn = Inl e''"
    by (simp add: methods_to_try_def adaptive_try_def extract_colorthief_def colorthief_try_def)
  from inst fails
  have "extract_adaptive ?L ''thumbnail'' ''a.png'' = extract_median_cut ?L ''thumbnail'' 5"
    by blast
  with tried ct show ?thesis by simp
qed


















lemma validate_contrast_text:
  assumes "get_color p BACKGROUND = Some bg" "get_color p TEXT = Some tcol"
    "get_color p PRIMARY = Some pr"
  shows "\<exists>cr. validate_contrast p = Inr cr
           \<and> map_of cr ''text_on_background'' = Some (contrast_ratio tcol bg)"
  using assms
  by (cases "get_accent p")
    (simp_all add: validate_contrast_def get_background_def get_text_def get_primary_def
      getitem_def get_color_def Let_def update_conv')

lemma clamp_unit: "0 \<le> min 1 (max 0 (x :: real))" "min 1 (max 0 (x :: real)) \<le> 1"
  by simp_all

text \<open>
  Claim C1. For every palette that the constructor of \<open>ColorPalette\<close> returns, every
  conversion to CIELab and every image, \<open>_calculate_quality_score\<close> returns a number (it
  does not raise). Its list of scores has five entries: the contrast score, which is
  \<open>min(1.0, c / 4.5)\<close> for the contrast ratio \<open>c\<close> of the text colour on the background
  colour, with weight 0.3; the colour diversity with weight 0.25; the saturation balance
  with weight 0.2; the luminance distribution with weight 0.15; and the mean confidence
  of the colours with weight 0.1. The weights add up to 1. The result is the sum of the
  five scores, each multiplied by its weight, clamped into the interval from 0 to 1.
\<close>

theorem C1_quality_score:
  assumes "new_ColorPalette cs si em qs = Inr palette"
  shows "\<exists>bg tcol scores q.
     get_color palette BACKGROUND = Some bg
     \<and> get_color palette TEXT = Some tcol
     \<and> quality_scores lab palette = Inr scores
     \<and> scores =
         [(''contrast'', min 1 (contrast_ratio tcol bg / 4.5), 0.3),
          (''diversity'', calculate_color_diversity lab (map snd (colors palette)), 0.25),
          (''saturation'', calculate_saturation_balance (map snd (colors palette)), 0.2),
          (''luminance'', calculate_luminance_distribution (map snd (colors palette)), 0.15),
          (''confidence'', np_mean (map confidence (map snd (colors palette))), 0.1)]
     \<and> sum_list (map (\<lambda>(name, score, weight). weight) scores) = 1
     \<and> calculate_quality_score lab palette img = Inr q
     \<and> q = min 1 (max 0
           (0.3 * min 1 (contrast_ratio tcol bg / 4.5)
            + 0.25 * calculate_color_diversity lab (map snd (colors palette))
            + 0.2 * calculate_saturation_balance (map snd (colors palette))
            + 0.15 * calculate_luminance_distribution (map snd (colors palette))
            + 0.1 * np_mean (map confidence (map snd (colors palette)))))
     \<and> 0 \<le> q \<and> q \<le> 1"
proof -
  note req = new_ColorPalette_required [OF assms]
  from req have "BACKGROUND \<in> fst ` set (colors palette)" "TEXT \<in> fst ` set (colors palette)"
    "PRIMARY \<in> fst ` set (colors palette)" by simp_all
  then obtain bg tcol prim where
    bg: "get_color palette BACKGROUND = Some bg" and tx: "get_color palette TEXT = Some tcol"
    and prim: "get_color palette PRIMARY = Some prim"
    using get_color_present [of BACKGROUND palette] get_color_present [of TEXT palette]
      get_color_present [of PRIMARY palette] by blast
  from validate_contrast_text [OF bg tx prim] obtain cr where
    cr: "validate_contrast palette = Inr cr"
      "map_of cr ''text_on_background'' = Some (contrast_ratio tcol bg)" by blast
  define scores where "scores =
         [(''contrast'', min 1 (contrast_ratio tcol bg / 4.5), 0.3 :: real),
          (''diversity'', calculate_color_diversity lab (map snd (colors palette)), 0.25),
          (''saturation'', calculate_saturation_balance (map snd (colors palette)), 0.2),
          (''luminance'', calculate_luminance_distribution (map snd (colors palette)), 0.15),
          (''confidence'', np_mean (map confidence (map snd (colors palette))), 0.1)]"
  define q where "q = min 1 (max 0
           (0.3 * min 1 (contrast_ratio tcol bg / 4.5)
            + 0.25 * calculate_color_diversity lab (map snd (colors palette))
            + 0.2 * calculate_saturation_balance (map snd (colors palette))
            + 0.15 * calculate_luminance_distribution (map snd (colors palette))
            + 0.1 * np_mean (map confidence (map snd (colors palette)))))"
  have qs: "quality_scores lab palette = Inr scores"
    by (simp add: quality_scores_def cr scores_def Let_def)
  have weights: "sum_list (map (\<lambda>(name, score, weight). weight) scores) = 1"
    by (simp add: scores_def)
  have total: "sum_list (map (\<lambda>(name, score, weight). score * weight) scores)
      = 0.3 * min 1 (contrast_ratio tcol bg / 4.5)
            + 0.25 * calculate_color_diversity lab (map snd (colors palette))
            + 0.2 * calculate_saturation_balance (map snd (colors palette))
            + 0.15 * calculate_luminance_distribution (map snd (colors palette))
            + 0.1 * np_mean (map confidence (map snd (colors palette)))"
    by (simp add: scores_def)
  have res: "calculate_quality_score lab palette img = Inr q"
    by (simp only: calculate_quality_score_def qs sum.case Let_def total q_def) simp
  have rng: "0 \<le> q" "q \<le> 1" unfolding q_def by (rule clamp_unit)+
  from bg tx qs scores_def weights res q_def rng show ?thesis
    by (intro exI [of _ bg] exI [of _ tcol] exI [of _ scores] exI [of _ q] conjI)
qed

theorem C1_quality_score_witness:
  "new_ColorPalette [(BACKGROUND, from_rgb 0 0 0 BACKGROUND), (TEXT, from_rgb 255 255 255 TEXT),
       (PRIMARY, from_rgb 255 0 0 PRIMARY)] None None None
     = Inr \<lparr> colors = [(BACKGROUND, from_rgb 0 0 0 BACKGROUND),
                        (TEXT, from_rgb 255 255 255 TEXT), (PRIMARY, from_rgb 255 0 0 PRIMARY)],
              source_image = None, extraction_method = None, quality_score = None \<rparr>
   \<and> (\<exists>q. calculate_quality_score (\<lambda>x. x)
             \<lparr> colors = [(BACKGROUND, from_rgb 0 0 0 BACKGROUND),
                        (TEXT, from_rgb 255 255 255 TEXT), (PRIMARY, from_rgb 255 0 0 PRIMARY)],
              source_image = None, extraction_method = None, quality_score = None \<rparr>
             () = Inr q \<and> 0 \<le> q \<and> q \<le> 1)"
proof -
  let ?cs = "[(BACKGROUND, from_rgb 0 0 0 BACKGROUND), (TEXT, from_rgb 255 255 255 TEXT),
       (PRIMARY, from_rgb 255 0 0 PRIMARY)]"
  let ?pal = "\<lparr> colors = ?cs, source_image = None, extraction_method = None,
      quality_score = None \<rparr>"
  have new: "new_ColorPalette ?cs None None None = Inr ?pal"
    by (rule new_ColorPalette_ok) simp_all
  from C1_quality_score [OF new, of "\<lambda>x. x" "()"]
  have "\<exists>q. calculate_quality_score (\<lambda>x. x) ?pal () = Inr q \<and> 0 \<le> q \<and> q \<le> 1" by blast
  with new show ?thesis by blast
qed

end
